theory Spec2Isabelle
  imports Main "HOL-Library.Word"
begin

section \<open>The ingestion orchestrator of horizon (ingest/ingester.go)\<close>

subsection \<open>Data model\<close>

text \<open>
  Go's \<open>int32\<close> is a 32-bit word read in two's complement (\<open>sint\<close>); \<open>+\<close> wraps.
  Go's \<open>int\<close> (the ingested counts) is the 64-bit word of the 64-bit targets.
\<close>

type_synonym int32 = "32 word"
type_synonym go_int = "64 word"

text \<open>
  An \<open>error\<close> value of Go. \<open>StackError\<close> is an error that carries a captured stack.
\<close>

datatype error = Error string | StackError string "string list"

text \<open>
  A call either returns or panics. A panic carries the recovered value and the frames of
  the stack it unwinds.
\<close>

datatype 'a outcome = Return 'a | Panic string "string list"

text \<open>
  Modelled from the spec: the \<open>log\<close> package is not under src/. The spec only has the
  orchestrator log its errors. A log line is kept as data, one constructor per kind of call
  the source makes: \<open>Info\<close> with its fields, \<open>Debug\<close>, \<open>Errorf\<close>, and
  \<open>WithStack(err).Errorf\<close>; a call appends its line to the log and does not panic.
\<close>

datatype log_entry =
    LogInfo string "(string \<times> int) list"
  | LogDebug string
  | LogErrorf string error
  | LogStackErrorf string error

text \<open>
  Modelled from the spec: the type \<open>session.Session\<close> is not under src/. The spec (section 6) gives the session as
  constructed with \<open>(fromSeq, toSeq, historyStoreHandle, sourceStoreHandle, sharedCache,
  metricsSink, version, overwriteExisting)\<close>, with an \<open>ingestedCount\<close> readable after
  \<open>run()\<close>. The handles, cache and metrics sink are the fixed fields of \<open>System\<close>
  (\<open>i.HorizonDB\<close>, \<open>i.CoreDB\<close>, \<open>i.HistoryAccountCache\<close>, \<open>i.Metrics\<close>); they stand
  for the world \<open>'w\<close> below and are not repeated in the record. \<open>ClearExisting\<close> and
  \<open>Ingested\<close> are the field names the source uses.
\<close>

record session =
  fromSeq :: int32
  toSeq :: int32
  version :: int
  ClearExisting :: bool
  Ingested :: go_int

text \<open>
  Modelled from the spec: the constructor \<open>session.NewSession\<close> is not under src/. It
  stores the two bounds and the version it is given; \<open>ClearExisting\<close> and \<open>Ingested\<close>
  start at their zero values.
\<close>

definition NewSession :: "int32 \<Rightarrow> int32 \<Rightarrow> int \<Rightarrow> session" where
  "NewSession first last' v =
     \<lparr>fromSeq = first, toSeq = last', version = v, ClearExisting = False, Ingested = 0\<rparr>"

text \<open>
  The collaborators of the orchestrator, none of them under src/, are parameters of the
  model: the two \<open>LatestLedger\<close> queries, the \<open>OldestOutdatedLedgers\<close> query,
  \<open>Session.Run\<close> and the constant \<open>CurrentVersion\<close>. Each call transforms the world \<open>'w\<close> (the two stores and
  whatever else lies outside the orchestrator) and returns or panics.

  A query that takes a destination pointer is given by what it does to the destination:
  \<open>Inr v\<close> writes \<open>v\<close> and returns a nil error, \<open>Inl e\<close> returns the error \<open>e\<close> and
  leaves the destination as it was (the contract \<open>latestSequence() -> SequenceNumber,
  error\<close> of the spec). \<open>session_Run\<close> returns the error of \<open>Run\<close> and the session as
  \<open>Run\<close> leaves it.
\<close>

record 'w env =
  CurrentVersion :: int
  core_LatestLedger :: "'w \<Rightarrow> (error + int32) outcome \<times> 'w"
  history_LatestLedger :: "'w \<Rightarrow> (error + int32) outcome \<times> 'w"
  OldestOutdatedLedgers :: "int \<Rightarrow> 'w \<Rightarrow> (error + int32 list) outcome \<times> 'w"
  session_Run :: "session \<Rightarrow> 'w \<Rightarrow> (error option \<times> session) outcome \<times> 'w"

text \<open>
  The state a call works on: the two sequence fields of \<open>System\<close>, the world, the log
  and the reports sent to Sentry.
\<close>

record 'w state =
  coreSequence :: int32
  historySequence :: int32
  world :: 'w
  logged :: "log_entry list"
  reported :: "error list"

text \<open>Modelled from the spec: a call of the \<open>log\<close> package appends its line.\<close>

definition log_write :: "log_entry \<Rightarrow> 'w state \<Rightarrow> 'w state" where
  "log_write l s = s\<lparr>logged := logged s @ [l]\<rparr>"

subsection \<open>updateLedgerState\<close>

text \<open>
  Each query writes through a pointer to the field itself (\<open>&i.coreSequence\<close>,
  \<open>&i.historySequence\<close>), the core query first.
\<close>

definition updateLedgerState :: "'w env \<Rightarrow> 'w state \<Rightarrow> error option outcome \<times> 'w state" where
  "updateLedgerState env s =
     (case core_LatestLedger env (world s) of
        (Panic v fr, w1) \<Rightarrow> (Panic v fr, s\<lparr>world := w1\<rparr>)
      | (Return (Inl err), w1) \<Rightarrow> (Return (Some err), s\<lparr>world := w1\<rparr>)
      | (Return (Inr c), w1) \<Rightarrow>
          (let s1 = s\<lparr>coreSequence := c, world := w1\<rparr> in
           case history_LatestLedger env w1 of
             (Panic v fr, w2) \<Rightarrow> (Panic v fr, s1\<lparr>world := w2\<rparr>)
           | (Return (Inl err), w2) \<Rightarrow> (Return (Some err), s1\<lparr>world := w2\<rparr>)
           | (Return (Inr h), w2) \<Rightarrow> (Return None, s1\<lparr>historySequence := h, world := w2\<rparr>)))"

subsection \<open>ReingestRange, ReingestSingle, ReingestAll\<close>

text \<open>
  \<open>ReingestRange\<close> builds its session from \<open>i.historySequence+1\<close> and
  \<open>i.coreSequence\<close>, as the source does; its parameters \<open>start\<close> and \<open>end\<close> occur
  nowhere in its body.
\<close>

definition ReingestRange ::
  "'w env \<Rightarrow> int32 \<Rightarrow> int32 \<Rightarrow> 'w state \<Rightarrow> (go_int \<times> error option) outcome \<times> 'w state" where
  "ReingestRange env start end' s =
     (let is0 = NewSession (historySequence s + 1) (coreSequence s) (CurrentVersion env);
          is1 = is0\<lparr>ClearExisting := True\<rparr>
      in case session_Run env is1 (world s) of
           (Panic v fr, w) \<Rightarrow> (Panic v fr, s\<lparr>world := w\<rparr>)
         | (Return (err, is2), w) \<Rightarrow> (Return (Ingested is2, err), s\<lparr>world := w\<rparr>))"

definition ReingestSingle :: "'w env \<Rightarrow> int32 \<Rightarrow> 'w state \<Rightarrow> error option outcome \<times> 'w state" where
  "ReingestSingle env sequence s =
     (case ReingestRange env sequence sequence s of
        (Panic v fr, s') \<Rightarrow> (Panic v fr, s')
      | (Return (_, err), s') \<Rightarrow> (Return err, s'))"

definition ReingestAll :: "'w env \<Rightarrow> 'w state \<Rightarrow> (go_int \<times> error option) outcome \<times> 'w state" where
  "ReingestAll env s =
     (case updateLedgerState env s of
        (Panic v fr, s') \<Rightarrow> (Panic v fr, s')
      | (Return (Some err), s') \<Rightarrow> (Return (0, Some err), s')
      | (Return None, s') \<Rightarrow> ReingestRange env 1 (coreSequence s') s')"

subsection \<open>ReingestOutdated\<close>

text \<open>
  The closure \<open>flush\<close> captures \<open>start\<close>, \<open>end\<close>, the named result \<open>n\<close> and
  the receiver. A flusher is given the two bounds and works on what it captures; it
  returns the error of \<open>flush\<close>, or panics.
\<close>

type_synonym 'c flusher = "int32 \<Rightarrow> int32 \<Rightarrow> 'c \<Rightarrow> error option outcome \<times> 'c"

definition flush :: "'w env \<Rightarrow> (go_int \<times> 'w state) flusher" where
  "flush env start end' c =
     (case c of (n, s) \<Rightarrow>
        (case ReingestRange env start end' s of
           (Panic v fr, s') \<Rightarrow> (Panic v fr, (n, s'))
         | (Return (ingested, Some ferr), s') \<Rightarrow> (Return (Some ferr), (n, s'))
         | (Return (ingested, None), s') \<Rightarrow> (Return None, (n + ingested, s'))))"

text \<open>
  The loop \<open>for idx := range outdated\<close> over the remaining elements, with the current
  \<open>start\<close> and \<open>end\<close>. \<open>Return (Inl err)\<close> is the \<open>return\<close> inside the loop after a
  failed flush; \<open>Return (Inr (start, end))\<close> is the loop running to its end.
\<close>

fun outdated_loop ::
  "'c flusher \<Rightarrow> int32 list \<Rightarrow> int32 \<Rightarrow> int32 \<Rightarrow> 'c \<Rightarrow> (error + int32 \<times> int32) outcome \<times> 'c" where
  "outdated_loop fl [] start end' c = (Return (Inr (start, end')), c)"
| "outdated_loop fl (seq # rest) start end' c =
     (if start = 0 then outdated_loop fl rest seq seq c
      else if seq = end' + 1 then outdated_loop fl rest start seq c
      else (case fl start end' c of
              (Panic v fr, c') \<Rightarrow> (Panic v fr, c')
            | (Return (Some err), c') \<Rightarrow> (Return (Inl err), c')
            | (Return None, c') \<Rightarrow> outdated_loop fl rest seq seq c'))"

text \<open>
  What one pass of the outer loop does with a query result that is not empty:
  \<open>var start, end int32\<close> (both zero), the loop, and the flush after it.
\<close>

definition reingest_batch :: "'c flusher \<Rightarrow> int32 list \<Rightarrow> 'c \<Rightarrow> error option outcome \<times> 'c" where
  "reingest_batch fl outdated c =
     (case outdated_loop fl outdated 0 0 c of
        (Panic v fr, c') \<Rightarrow> (Panic v fr, c')
      | (Return (Inl err), c') \<Rightarrow> (Return (Some err), c')
      | (Return (Inr (start, end')), c') \<Rightarrow> fl start end' c')"

text \<open>
  The outer \<open>for\<close> has no bound, so the sweep from a given \<open>n\<close> is a partial function:
  \<open>None\<close> is a sweep that never returns.
\<close>

partial_function (option) ReingestOutdated_from ::
  "'w env \<Rightarrow> go_int \<times> 'w state \<Rightarrow> ((go_int \<times> error option) outcome \<times> 'w state) option" where
  "ReingestOutdated_from env c =
     (case c of (n, s) \<Rightarrow>
        (case OldestOutdatedLedgers env (CurrentVersion env) (world s) of
           (Panic v fr, w) \<Rightarrow> Some (Panic v fr, s\<lparr>world := w\<rparr>)
         | (Return (Inl err), w) \<Rightarrow> Some (Return (n, Some err), s\<lparr>world := w\<rparr>)
         | (Return (Inr outdated), w) \<Rightarrow>
             if length outdated = 0 then Some (Return (n, None), s\<lparr>world := w\<rparr>)
             else
               (let s1 = log_write
                      (LogInfo ''reingest: outdated''
                         [(''lowest_sequence'', sint (outdated ! 0)),
                          (''batch_size'', int (length outdated))])
                      (s\<lparr>world := w\<rparr>)
                in case reingest_batch (flush env) outdated (n, s1) of
                     (Panic v fr, (n', s')) \<Rightarrow> Some (Panic v fr, s')
                   | (Return (Some err), (n', s')) \<Rightarrow> Some (Return (n', Some err), s')
                   | (Return None, c') \<Rightarrow> ReingestOutdated_from env c')))"

declare ReingestOutdated_from.simps [code]

definition ReingestOutdated ::
  "'w env \<Rightarrow> 'w state \<Rightarrow> ((go_int \<times> error option) outcome \<times> 'w state) option" where
  "ReingestOutdated env s = ReingestOutdated_from env (0, s)"

text \<open>
  The ranges the sweep hands to \<open>flush\<close> for one query result when no flush fails: the
  flusher below only records its two arguments. An empty result returns before the loop
  (\<open>len(outdated) == 0\<close>) and flushes nothing.
\<close>

definition record_range :: "(int32 \<times> int32) list flusher" where
  "record_range start end' rs = (Return None, rs @ [(start, end')])"

definition emitted_ranges :: "int32 list \<Rightarrow> (int32 \<times> int32) list" where
  "emitted_ranges outdated =
     (if length outdated = 0 then [] else snd (reingest_batch record_range outdated []))"

text \<open>
  The wording of the spec (section 4.5) for one query result, to compare with the loop
  above: run the driver once per range, in order, accumulating ingested counts; on the
  first range-level error abort and return that error, do not continue to later ranges.
  The count of a failing range is not added.
\<close>

fun spec_run_ranges ::
  "'w env \<Rightarrow> (int32 \<times> int32) list \<Rightarrow> go_int \<times> 'w state
     \<Rightarrow> error option outcome \<times> (go_int \<times> 'w state)" where
  "spec_run_ranges env [] c = (Return None, c)"
| "spec_run_ranges env ((a, b) # rs) c =
     (case c of (n, s) \<Rightarrow>
        (case ReingestRange env a b s of
           (Panic v fr, s') \<Rightarrow> (Panic v fr, (n, s'))
         | (Return (k, Some err), s') \<Rightarrow> (Return (Some err), (n, s'))
         | (Return (k, None), s') \<Rightarrow> spec_run_ranges env rs (n + k, s')))"

text \<open>The sequence numbers a range \<open>{start, end}\<close> covers, both ends included.\<close>

definition range_set :: "int32 \<times> int32 \<Rightarrow> int32 set" where
  "range_set r = {x. sint (fst r) \<le> sint x \<and> sint x \<le> sint (snd r)}"

subsection \<open>The poller: runOnce and run\<close>

text \<open>
  Modelled from the spec: \<open>errors.FromPanic\<close> is not under src/. The spec has the fault
  "converted into a structured error carrying a stack trace".
\<close>

definition FromPanic :: "string \<Rightarrow> string list \<Rightarrow> error" where
  "FromPanic rec frames = StackError rec frames"

text \<open>
  Modelled from the spec: \<open>errors.ReportToSentry\<close> is not under src/. The spec has the
  error "reported to an external crash-aggregation sink", fire-and-forget: the report is
  appended to the reports sent and the call returns.
\<close>

definition ReportToSentry :: "error \<Rightarrow> 'w state \<Rightarrow> 'w state" where
  "ReportToSentry err s = s\<lparr>reported := reported s @ [err]\<rparr>"

text \<open>
  The body of \<open>runOnce\<close> below its \<open>defer\<close>: the \<open>for\<close> loop of steps 1 to 3, which
  has no bound. \<open>i.historySequence >= i.coreSequence\<close> compares signed values.
\<close>

partial_function (option) runOnce_loop ::
  "'w env \<Rightarrow> 'w state \<Rightarrow> (unit outcome \<times> 'w state) option" where
  "runOnce_loop env s =
     (case updateLedgerState env s of
        (Panic v fr, s1) \<Rightarrow> Some (Panic v fr, s1)
      | (Return (Some err), s1) \<Rightarrow>
          Some (Return (), log_write (LogErrorf ''could not load ledger state: %s'' err) s1)
      | (Return None, s1) \<Rightarrow>
          if sint (coreSequence s1) \<le> sint (historySequence s1) then Some (Return (), s1)
          else
            (let is0 = NewSession (historySequence s1 + 1) (coreSequence s1) (CurrentVersion env)
             in case session_Run env is0 (world s1) of
                  (Panic v fr, w) \<Rightarrow> Some (Panic v fr, s1\<lparr>world := w\<rparr>)
                | (Return (Some err, is1), w) \<Rightarrow>
                    Some (Return (),
                          log_write (LogStackErrorf ''import session failed: %s'' err)
                            (s1\<lparr>world := w\<rparr>))
                | (Return (None, is1), w) \<Rightarrow>
                    if Ingested is1 = 0 then Some (Return (), s1\<lparr>world := w\<rparr>)
                    else runOnce_loop env (s1\<lparr>world := w\<rparr>)))"

declare runOnce_loop.simps [code]

text \<open>
  \<open>runOnce\<close>: the deferred function recovers a panic of the body, converts it, logs it
  and reports it; then \<open>runOnce\<close> returns normally.
\<close>

definition runOnce :: "'w env \<Rightarrow> 'w state \<Rightarrow> (unit outcome \<times> 'w state) option" where
  "runOnce env s =
     (case runOnce_loop env s of
        None \<Rightarrow> None
      | Some (Return u, s') \<Rightarrow> Some (Return (), s')
      | Some (Panic rec frames, s') \<Rightarrow>
          (let err = FromPanic rec frames
           in Some (Return (),
                    ReportToSentry err
                      (log_write (LogStackErrorf ''import session panicked: %s'' err) s'))))"

text \<open>
  \<open>run\<close>: one \<open>runOnce\<close> per tick received from \<open>i.tick.C\<close>, here for the first
  \<open>ticks\<close> ticks. A panic leaving \<open>runOnce\<close> would leave the loop.
\<close>

fun run :: "'w env \<Rightarrow> nat \<Rightarrow> 'w state \<Rightarrow> (unit outcome \<times> 'w state) option" where
  "run env 0 s = Some (Return (), s)"
| "run env (Suc ticks) s =
     (case runOnce env (log_write (LogDebug ''ticking ingester'') s) of
        None \<Rightarrow> None
      | Some (Panic v fr, s') \<Rightarrow> Some (Panic v fr, s')
      | Some (Return u, s') \<Rightarrow> run env ticks s')"

subsection \<open>Stub collaborators for concrete runs\<close>

text \<open>
  A small world for running the orchestrator on concrete inputs: the latest sequence of
  each store, a fault to answer a latest-sequence query with, the pages the
  outdated-ledger query still has to return, what the next sessions do when run, and the
  sessions run so far. A session in mode \<open>RunsAll\<close> (also the mode once the script is
  used up) ingests every ledger of its range and moves the history store to the end of
  it; \<open>FailsAfter k e\<close> ingests \<open>k\<close> ledgers and returns the error \<open>e\<close>;
  \<open>Panics v\<close> panics with the value \<open>v\<close>.
\<close>

datatype run_mode = RunsAll | FailsAfter go_int error | Panics string

record stub_world =
  core_seq :: int32
  hist_seq :: int32
  core_fault :: "error option"
  hist_fault :: "error option"
  pages :: "int32 list list"
  run_script :: "run_mode list"
  ran :: "session list"

definition stub_core :: "stub_world \<Rightarrow> (error + int32) outcome \<times> stub_world" where
  "stub_core w =
     (case core_fault w of
        Some e \<Rightarrow> (Return (Inl e), w)
      | None \<Rightarrow> (Return (Inr (core_seq w)), w))"

definition stub_history :: "stub_world \<Rightarrow> (error + int32) outcome \<times> stub_world" where
  "stub_history w =
     (case hist_fault w of
        Some e \<Rightarrow> (Return (Inl e), w)
      | None \<Rightarrow> (Return (Inr (hist_seq w)), w))"

definition stub_outdated :: "int \<Rightarrow> stub_world \<Rightarrow> (error + int32 list) outcome \<times> stub_world" where
  "stub_outdated v w =
     (case pages w of
        [] \<Rightarrow> (Return (Inr []), w)
      | p # ps \<Rightarrow> (Return (Inr p), w\<lparr>pages := ps\<rparr>))"

definition run_as :: "run_mode \<Rightarrow> session \<Rightarrow> stub_world \<Rightarrow> (error option \<times> session) outcome \<times> stub_world" where
  "run_as m is w =
     (case m of
        RunsAll \<Rightarrow>
          (Return (None, is\<lparr>Ingested := word_of_int (sint (toSeq is) - sint (fromSeq is) + 1)\<rparr>),
           w\<lparr>hist_seq := toSeq is, ran := ran w @ [is]\<rparr>)
      | FailsAfter k e \<Rightarrow> (Return (Some e, is\<lparr>Ingested := k\<rparr>), w\<lparr>ran := ran w @ [is]\<rparr>)
      | Panics v \<Rightarrow> (Panic v [''session.Run''], w\<lparr>ran := ran w @ [is]\<rparr>))"

definition stub_Run :: "session \<Rightarrow> stub_world \<Rightarrow> (error option \<times> session) outcome \<times> stub_world" where
  "stub_Run is w =
     (case run_script w of
        [] \<Rightarrow> run_as RunsAll is w
      | m # ms \<Rightarrow> run_as m is (w\<lparr>run_script := ms\<rparr>))"

definition stub_env :: "stub_world env" where
  "stub_env =
     \<lparr>CurrentVersion = 8, core_LatestLedger = stub_core, history_LatestLedger = stub_history,
      OldestOutdatedLedgers = stub_outdated, session_Run = stub_Run\<rparr>"

definition stub_state :: "int32 \<Rightarrow> int32 \<Rightarrow> stub_world \<Rightarrow> stub_world state" where
  "stub_state c h w =
     \<lparr>coreSequence = c, historySequence = h, world = w, logged = [], reported = []\<rparr>"

text \<open>The source store at ledger 100, the history store at ledger 40, nothing failing.\<close>

definition stub_world0 :: stub_world where
  "stub_world0 =
     \<lparr>core_seq = 100, hist_seq = 40, core_fault = None, hist_fault = None, pages = [],
      run_script = [], ran = []\<rparr>"

lemmas stub_defs =
  stub_env_def stub_core_def stub_history_def stub_outdated_def stub_Run_def run_as_def
  stub_state_def stub_world0_def

section \<open>Properties\<close>

subsection \<open>The operator entry points\<close>

text \<open>
  Claim C1 asks that \<open>ReingestRange(start, end)\<close> runs one session whose range is
  \<open>[start, end]\<close>, with the overwrite flag set, and returns its count and error. The source
  builds the session from \<open>i.historySequence+1\<close> and \<open>i.coreSequence\<close>: called with
  \<open>(5, 10)\<close> while the history store is at 40 and the source store at 100, it runs one
  session over \<open>[41, 100]\<close> (overwrite flag set) and returns that session's count, 60.
\<close>

theorem ReingestRange_ignores_start_end:
  "ReingestRange stub_env 5 10 (stub_state 100 40 stub_world0) =
     (Return (60, None),
      stub_state 100 40
        (stub_world0\<lparr>hist_seq := 100,
           ran := [\<lparr>fromSeq = 41, toSeq = 100, version = 8, ClearExisting = True,
                    Ingested = 0\<rparr>]\<rparr>))"
  by (simp add: ReingestRange_def NewSession_def stub_defs)

text \<open>
  Claim C4 asks that \<open>ReingestAll\<close> refreshes the state and then runs the driver once over
  \<open>[1, coreSequence]\<close>. The source calls \<open>ReingestRange(1, i.coreSequence)\<close>, which does
  not read its arguments: with the history store refreshed to 40 and the source store to
  100, the one session run covers \<open>[41, 100]\<close>, not \<open>[1, 100]\<close>.
\<close>

theorem ReingestAll_session_range:
  "ReingestAll stub_env (stub_state 0 0 stub_world0) =
     (Return (60, None),
      stub_state 100 40
        (stub_world0\<lparr>hist_seq := 100,
           ran := [\<lparr>fromSeq = 41, toSeq = 100, version = 8, ClearExisting = True,
                    Ingested = 0\<rparr>]\<rparr>))"
  by (simp add: ReingestAll_def updateLedgerState_def ReingestRange_def NewSession_def stub_defs)

text \<open>
  Claim C7: for every sequence number, \<open>ReingestSingle(seq)\<close> is
  \<open>ReingestRange(seq, seq)\<close> with the count dropped. It leaves the state that
  \<open>ReingestRange(seq, seq)\<close> leaves, returns the error that call returns, and panics
  when that call panics.
\<close>

theorem ReingestSingle_is_ReingestRange:
  "snd (ReingestSingle env sequence s) = snd (ReingestRange env sequence sequence s)
   \<and> (\<forall>n err. fst (ReingestRange env sequence sequence s) = Return (n, err)
         \<longrightarrow> fst (ReingestSingle env sequence s) = Return err)
   \<and> (\<forall>v fr. fst (ReingestRange env sequence sequence s) = Panic v fr
         \<longrightarrow> fst (ReingestSingle env sequence s) = Panic v fr)"
  by (auto simp: ReingestSingle_def split: prod.splits outcome.splits)

theorem ReingestSingle_is_ReingestRange_witness:
  "fst (ReingestSingle stub_env 42 (stub_state 100 40 stub_world0)) = Return None
   \<and> snd (ReingestSingle stub_env 42 (stub_state 100 40 stub_world0)) =
       stub_state 100 40
        (stub_world0\<lparr>hist_seq := 100,
           ran := [\<lparr>fromSeq = 41, toSeq = 100, version = 8, ClearExisting = True,
                    Ingested = 0\<rparr>]\<rparr>)"
proof -
  have r: "ReingestRange stub_env 42 42 (stub_state 100 40 stub_world0) =
     (Return (60, None),
      stub_state 100 40
        (stub_world0\<lparr>hist_seq := 100,
           ran := [\<lparr>fromSeq = 41, toSeq = 100, version = 8, ClearExisting = True,
                    Ingested = 0\<rparr>]\<rparr>))"
    by (simp add: ReingestRange_def NewSession_def stub_defs)
  show ?thesis
    using ReingestSingle_is_ReingestRange [of stub_env 42 "stub_state 100 40 stub_world0"] r
    by simp
qed

subsection \<open>Refreshing the state\<close>

text \<open>
  Claim C2 as stated fails: with the core query answering 100 and the history query
  failing, \<open>updateLedgerState\<close> returns the error and \<open>coreSequence\<close> has changed from 7
  to 100.
\<close>

theorem updateLedgerState_partial_update_counterexample:
  "fst (updateLedgerState stub_env
          (stub_state 7 5 (stub_world0\<lparr>hist_fault := Some (Error ''history store down'')\<rparr>)))
     = Return (Some (Error ''history store down''))
   \<and> coreSequence (snd (updateLedgerState stub_env
          (stub_state 7 5 (stub_world0\<lparr>hist_fault := Some (Error ''history store down'')\<rparr>))))
     = 100
   \<and> coreSequence
          (stub_state 7 5 (stub_world0\<lparr>hist_fault := Some (Error ''history store down'')\<rparr>))
     = 7"
  by (simp add: updateLedgerState_def stub_defs)

lemma runOnce_refresh_error:
  assumes "updateLedgerState env s = (Return (Some e), s1)"
  shows "runOnce env s =
           Some (Return (), log_write (LogErrorf ''could not load ledger state: %s'' e) s1)"
  using assms by (simp add: runOnce_def runOnce_loop.simps [of env s])

text \<open>
  Claim C2, amended. \<open>updateLedgerState\<close> returns the error of the first query that fails.
  When the core query fails, neither field is overwritten. When the core query succeeds
  and the history query fails, \<open>coreSequence\<close> holds the value just read and
  \<open>historySequence\<close> keeps its value. When both succeed, both fields are overwritten.
  After a failed refresh \<open>runOnce\<close> returns at once: it leaves the state the refresh left,
  plus one log line, so no session is run in that iteration.
\<close>

theorem updateLedgerState_overwrites:
  "(core_LatestLedger env (world s) = (Return (Inl e), w1) \<longrightarrow>
      updateLedgerState env s = (Return (Some e), s\<lparr>world := w1\<rparr>))
   \<and> (core_LatestLedger env (world s) = (Return (Inr c), w1)
        \<and> history_LatestLedger env w1 = (Return (Inl e), w2) \<longrightarrow>
      updateLedgerState env s = (Return (Some e), s\<lparr>coreSequence := c, world := w2\<rparr>))
   \<and> (core_LatestLedger env (world s) = (Return (Inr c), w1)
        \<and> history_LatestLedger env w1 = (Return (Inr h), w2) \<longrightarrow>
      updateLedgerState env s =
        (Return None, s\<lparr>coreSequence := c, historySequence := h, world := w2\<rparr>))
   \<and> (updateLedgerState env s = (Return (Some e), s1) \<longrightarrow>
      runOnce env s =
        Some (Return (), log_write (LogErrorf ''could not load ledger state: %s'' e) s1))"
  by (simp add: updateLedgerState_def runOnce_refresh_error)

theorem updateLedgerState_overwrites_witness:
  "updateLedgerState stub_env
      (stub_state 7 5 (stub_world0\<lparr>core_fault := Some (Error ''core store down'')\<rparr>)) =
     (Return (Some (Error ''core store down'')),
      stub_state 7 5 (stub_world0\<lparr>core_fault := Some (Error ''core store down'')\<rparr>))
   \<and> updateLedgerState stub_env
      (stub_state 7 5 (stub_world0\<lparr>hist_fault := Some (Error ''history store down'')\<rparr>)) =
     (Return (Some (Error ''history store down'')),
      stub_state 100 5 (stub_world0\<lparr>hist_fault := Some (Error ''history store down'')\<rparr>))
   \<and> updateLedgerState stub_env (stub_state 7 5 stub_world0) =
     (Return None, stub_state 100 40 stub_world0)
   \<and> runOnce stub_env
      (stub_state 7 5 (stub_world0\<lparr>hist_fault := Some (Error ''history store down'')\<rparr>)) =
     Some (Return (),
       (stub_state 100 5 (stub_world0\<lparr>hist_fault := Some (Error ''history store down'')\<rparr>))
         \<lparr>logged := [LogErrorf ''could not load ledger state: %s'' (Error ''history store down'')]\<rparr>)"
proof -
  let ?wc = "stub_world0\<lparr>core_fault := Some (Error ''core store down'')\<rparr>"
  let ?wh = "stub_world0\<lparr>hist_fault := Some (Error ''history store down'')\<rparr>"
  have c1: "core_LatestLedger stub_env (world (stub_state 7 5 ?wc)) =
              (Return (Inl (Error ''core store down'')), ?wc)"
    by (simp add: stub_defs)
  have c2: "core_LatestLedger stub_env (world (stub_state 7 5 ?wh)) = (Return (Inr 100), ?wh)"
    by (simp add: stub_defs)
  have h2: "history_LatestLedger stub_env ?wh = (Return (Inl (Error ''history store down'')), ?wh)"
    by (simp add: stub_defs)
  have c3: "core_LatestLedger stub_env (world (stub_state 7 5 stub_world0)) =
              (Return (Inr 100), stub_world0)"
    by (simp add: stub_defs)
  have h3: "history_LatestLedger stub_env stub_world0 = (Return (Inr 40), stub_world0)"
    by (simp add: stub_defs)
  note a = updateLedgerState_overwrites
    [where env = stub_env and s = "stub_state 7 5 ?wc" and e = "Error ''core store down''"
       and ?w1.0 = ?wc]
  note b = updateLedgerState_overwrites
    [where env = stub_env and s = "stub_state 7 5 ?wh" and e = "Error ''history store down''"
       and ?w1.0 = ?wh and c = 100 and ?w2.0 = ?wh
       and ?s1.0 = "stub_state 100 5 ?wh"]
  note c = updateLedgerState_overwrites
    [where env = stub_env and s = "stub_state 7 5 stub_world0" and c = 100 and h = 40
       and ?w1.0 = stub_world0 and ?w2.0 = stub_world0]
  have r1: "updateLedgerState stub_env (stub_state 7 5 ?wc) =
              (Return (Some (Error ''core store down'')), stub_state 7 5 ?wc)"
    using a c1 by (simp add: stub_state_def)
  have r2: "updateLedgerState stub_env (stub_state 7 5 ?wh) =
              (Return (Some (Error ''history store down'')), stub_state 100 5 ?wh)"
    using b c2 h2 by (simp add: stub_state_def)
  have r3: "updateLedgerState stub_env (stub_state 7 5 stub_world0) =
              (Return None, stub_state 100 40 stub_world0)"
    using c c3 h3 by (simp add: stub_state_def)
  have r4: "runOnce stub_env (stub_state 7 5 ?wh) =
     Some (Return (),
       (stub_state 100 5 ?wh)
         \<lparr>logged := [LogErrorf ''could not load ledger state: %s'' (Error ''history store down'')]\<rparr>)"
    using b r2 by (simp add: stub_state_def log_write_def)
  show ?thesis using r1 r2 r3 r4 by simp
qed

subsection \<open>The batching loop of the sweep\<close>


lemma sint_eqD: "sint (x::int32) = sint y \<Longrightarrow> x = y"
  by (rule signed_word_eqI)

lemma sint_succ:
  fixes b x :: int32
  assumes "sint b < sint x"
  shows "sint (b + 1) = sint b + 1"
proof -
  have ub: "sint x < 2 ^ 31" using sint_lt [of x] by simp
  have lb: "- (2 ^ 31) \<le> sint b" using sint_ge [of b] by simp
  show ?thesis
    using assms ub lb by (simp add: sint_word_ariths signed_take_bit_int_eq_self)
qed

lemma sint_succ_iff:
  fixes b x :: int32
  assumes "sint b < sint x"
  shows "(x = b + 1) = (sint x = sint b + 1)"
  using sint_succ [OF assms] by (auto intro: sint_eqD)

lemma record_loop_inv:
  assumes "0 < sint a" "sint a \<le> sint b" "sorted_wrt (\<lambda>x y. sint x < sint y) (b # xs)"
  shows "\<exists>a' b' ys. (\<forall>rs. outdated_loop record_range xs a b rs = (Return (Inr (a', b')), rs @ ys))
     \<and> (\<forall>r \<in> set (ys @ [(a', b')]). sint a \<le> sint (fst r) \<and> sint (fst r) \<le> sint (snd r))
     \<and> sorted_wrt (\<lambda>r1 r2. sint (snd r1) + 1 < sint (fst r2)) (ys @ [(a', b')])
     \<and> (\<Union>r \<in> set (ys @ [(a', b')]). range_set r) = range_set (a, b) \<union> set xs"
  using assms
proof (induction xs arbitrary: a b)
  case Nil
  show ?case using Nil by (intro exI [of _ a] exI [of _ b] exI [of _ "[]"]) simp
next
  case (Cons x xs)
  have a0: "a \<noteq> 0" using Cons.prems(1) by auto
  have bx: "sint b < sint x" using Cons.prems(3) by simp
  have sx: "sorted_wrt (\<lambda>x y. sint x < sint y) (x # xs)" using Cons.prems(3) by simp
  show ?case
  proof (cases "x = b + 1")
    case True
    have sxb: "sint x = sint b + 1" using True bx sint_succ_iff by blast
    have ax: "sint a \<le> sint x" using Cons.prems(2) bx by simp
    from Cons.IH [OF Cons.prems(1) ax sx] obtain a' b' ys where
      h: "\<forall>rs. outdated_loop record_range xs a x rs = (Return (Inr (a', b')), rs @ ys)"
       "\<forall>r \<in> set (ys @ [(a', b')]). sint a \<le> sint (fst r) \<and> sint (fst r) \<le> sint (snd r)"
       "sorted_wrt (\<lambda>r1 r2. sint (snd r1) + 1 < sint (fst r2)) (ys @ [(a', b')])"
       "(\<Union>r \<in> set (ys @ [(a', b')]). range_set r) = range_set (a, x) \<union> set xs"
      by (elim exE conjE) (rule that, assumption+)
    have rs: "range_set (a, x) = range_set (a, b) \<union> {x}"
    proof -
      have "sint y \<le> sint b" if "sint y \<le> sint b + 1" "y \<noteq> x" for y
      proof -
        have "sint y \<noteq> sint x" using that(2) sint_eqD by blast
        then show ?thesis using that(1) sxb by linarith
      qed
      then show ?thesis using sxb ax by (auto simp: range_set_def)
    qed
    have l: "\<forall>rs. outdated_loop record_range (x # xs) a b rs = (Return (Inr (a', b')), rs @ ys)"
      using a0 True h(1) by simp
    have p4: "(\<Union>r \<in> set (ys @ [(a', b')]). range_set r) = range_set (a, b) \<union> set (x # xs)"
      using h(4) rs by auto
    show ?thesis
      by (intro exI [of _ a'] exI [of _ b'] exI [of _ ys] conjI) (rule l, rule h(2), rule h(3), rule p4)
  next
    case False
    have gap: "sint b + 1 < sint x" using False bx sint_succ_iff [OF bx] by linarith
    have x0: "0 < sint x" using Cons.prems(1,2) bx by linarith
    from Cons.IH [OF x0 order_refl sx] obtain a' b' ys where
      h: "\<forall>rs. outdated_loop record_range xs x x rs = (Return (Inr (a', b')), rs @ ys)"
       "\<forall>r \<in> set (ys @ [(a', b')]). sint x \<le> sint (fst r) \<and> sint (fst r) \<le> sint (snd r)"
       "sorted_wrt (\<lambda>r1 r2. sint (snd r1) + 1 < sint (fst r2)) (ys @ [(a', b')])"
       "(\<Union>r \<in> set (ys @ [(a', b')]). range_set r) = range_set (x, x) \<union> set xs"
      by (elim exE conjE) (rule that, assumption+)
    have l: "\<forall>rs. outdated_loop record_range (x # xs) a b rs = (Return (Inr (a', b')), rs @ ((a, b) # ys))"
      using a0 False h(1) by (simp add: record_range_def)
    have xx: "range_set (x, x) = {x}" by (auto simp: range_set_def intro: sint_eqD)
    have p2: "\<forall>r \<in> set (((a, b) # ys) @ [(a', b')]). sint a \<le> sint (fst r) \<and> sint (fst r) \<le> sint (snd r)"
    proof
      fix r assume "r \<in> set (((a, b) # ys) @ [(a', b')])"
      then have "r = (a, b) \<or> r \<in> set (ys @ [(a', b')])" by auto
      then show "sint a \<le> sint (fst r) \<and> sint (fst r) \<le> sint (snd r)"
        using h(2) Cons.prems(2) bx by fastforce
    qed
    have p3: "sorted_wrt (\<lambda>r1 r2. sint (snd r1) + 1 < sint (fst r2)) (((a, b) # ys) @ [(a', b')])"
    proof -
      have "\<forall>r \<in> set (ys @ [(a', b')]). sint (snd (a, b)) + 1 < sint (fst r)"
        using h(2) gap by fastforce
      then show ?thesis using h(3) by simp
    qed
    have p4: "(\<Union>r \<in> set (((a, b) # ys) @ [(a', b')]). range_set r) = range_set (a, b) \<union> set (x # xs)"
      using h(4) xx by auto
    show ?thesis
      by (intro exI [of _ a'] exI [of _ b'] exI [of _ "(a, b) # ys"] conjI)
         (rule l, rule p2, rule p3, rule p4)
  qed
qed

lemma emitted_ranges_Cons:
  assumes "\<forall>rs. outdated_loop record_range xs x x rs = (Return (Inr (a', b')), rs @ ys)"
  shows "emitted_ranges (x # xs) = ys @ [(a', b')]"
proof -
  have "outdated_loop record_range (x # xs) 0 0 [] = (Return (Inr (a', b')), ys)"
    using assms by simp
  then show ?thesis
    by (simp add: emitted_ranges_def reingest_batch_def record_range_def)
qed

text \<open>
  Claim C3: for every ascending, duplicate-free list of positive sequence numbers the
  ranges the sweep flushes are the maximal contiguous runs of the list. Each range has
  \<open>start \<le> end\<close>. Any two ranges, in the order they are emitted, are separated by a gap:
  the later one starts more than one above the end of the earlier one, so the ranges are
  in ascending order of start, do not overlap, and no run of consecutive values is split
  across two of them. The union of the ranges is exactly the set of the input, so a range
  holds input values only; in particular every value of a range below its end has its
  successor in the input, and no range joins two values that differ by more than 1. An
  empty input yields no range, \<open>[5]\<close> yields \<open>[{5,5}]\<close> and \<open>[1,2,3,7,8,10]\<close> yields
  \<open>[{1,3},{7,8},{10,10}]\<close>.
\<close>

theorem emitted_ranges_maximal_runs:
  "(sorted_wrt (\<lambda>x y. sint x < sint y) outdated \<and> (\<forall>x \<in> set outdated. 0 < sint x) \<longrightarrow>
      (\<forall>r \<in> set (emitted_ranges outdated). sint (fst r) \<le> sint (snd r))
      \<and> sorted_wrt (\<lambda>r1 r2. sint (snd r1) + 1 < sint (fst r2)) (emitted_ranges outdated)
      \<and> (\<Union>r \<in> set (emitted_ranges outdated). range_set r) = set outdated
      \<and> (\<forall>r \<in> set (emitted_ranges outdated).
            \<forall>x. sint (fst r) \<le> sint x \<and> sint x < sint (snd r) \<longrightarrow> x + 1 \<in> set outdated))
   \<and> emitted_ranges [] = []
   \<and> emitted_ranges [5] = [(5, 5)]
   \<and> emitted_ranges [1, 2, 3, 7, 8, 10] = [(1, 3), (7, 8), (10, 10)]"
proof (intro conjI impI)
  assume h: "sorted_wrt (\<lambda>x y. sint x < sint y) outdated \<and> (\<forall>x \<in> set outdated. 0 < sint x)"
  have m: "(\<forall>r \<in> set (emitted_ranges outdated). sint (fst r) \<le> sint (snd r))
      \<and> sorted_wrt (\<lambda>r1 r2. sint (snd r1) + 1 < sint (fst r2)) (emitted_ranges outdated)
      \<and> (\<Union>r \<in> set (emitted_ranges outdated). range_set r) = set outdated"
  proof (cases outdated)
    case Nil
    then show ?thesis by (simp add: emitted_ranges_def)
  next
    case (Cons x xs)
    have x0: "0 < sint x" using h Cons by simp
    have sx: "sorted_wrt (\<lambda>x y. sint x < sint y) (x # xs)" using h Cons by simp
    from record_loop_inv [OF x0 order_refl sx] obtain a' b' ys where
      l: "\<forall>rs. outdated_loop record_range xs x x rs = (Return (Inr (a', b')), rs @ ys)"
      and p: "\<forall>r \<in> set (ys @ [(a', b')]). sint x \<le> sint (fst r) \<and> sint (fst r) \<le> sint (snd r)"
       "sorted_wrt (\<lambda>r1 r2. sint (snd r1) + 1 < sint (fst r2)) (ys @ [(a', b')])"
       "(\<Union>r \<in> set (ys @ [(a', b')]). range_set r) = range_set (x, x) \<union> set xs"
      by (elim exE conjE) (rule that, assumption+)
    have e: "emitted_ranges outdated = ys @ [(a', b')]"
      using emitted_ranges_Cons [OF l] Cons by simp
    have xx: "range_set (x, x) = {x}" by (auto simp: range_set_def intro: sint_eqD)
    have c: "(\<Union>r \<in> set (ys @ [(a', b')]). range_set r) = set outdated"
      using p(3) xx Cons by simp
    show ?thesis unfolding e using p(1) p(2) c by blast
  qed
  then show "\<forall>r \<in> set (emitted_ranges outdated). sint (fst r) \<le> sint (snd r)"
    and "sorted_wrt (\<lambda>r1 r2. sint (snd r1) + 1 < sint (fst r2)) (emitted_ranges outdated)"
    and "(\<Union>r \<in> set (emitted_ranges outdated). range_set r) = set outdated"
    by blast+
  show "\<forall>r \<in> set (emitted_ranges outdated).
          \<forall>x. sint (fst r) \<le> sint x \<and> sint x < sint (snd r) \<longrightarrow> x + 1 \<in> set outdated"
  proof (intro ballI allI impI)
    fix r :: "int32 \<times> int32" and x :: int32
    assume r: "r \<in> set (emitted_ranges outdated)"
      and x: "sint (fst r) \<le> sint x \<and> sint x < sint (snd r)"
    have "sint (x + 1) = sint x + 1" using x sint_succ [of x "snd r"] by simp
    then have "x + 1 \<in> range_set r" using x by (simp add: range_set_def)
    then have "x + 1 \<in> (\<Union>r \<in> set (emitted_ranges outdated). range_set r)" using r by blast
    then show "x + 1 \<in> set outdated" using m by simp
  qed
next
  show "emitted_ranges [] = []" by (simp add: emitted_ranges_def)
next
  show "emitted_ranges [5] = [(5, 5)]"
    by (simp add: emitted_ranges_def reingest_batch_def record_range_def)
next
  show "emitted_ranges [1, 2, 3, 7, 8, 10] = [(1, 3), (7, 8), (10, 10)]"
    by (simp add: emitted_ranges_def reingest_batch_def record_range_def)
qed

theorem emitted_ranges_maximal_runs_witness:
  "sorted_wrt (\<lambda>r1 r2. sint (snd r1) + 1 < sint (fst r2)) (emitted_ranges [3, 4, 9, 11, 12, 13])
   \<and> (\<Union>r \<in> set (emitted_ranges [3, 4, 9, 11, 12, 13]). range_set r) = {3, 4, 9, 11, 12, 13}
   \<and> emitted_ranges [3, 4, 9, 11, 12, 13] = [(3, 4), (9, 9), (11, 13)]"
proof -
  have h: "sorted_wrt (\<lambda>x y. sint x < sint y) [3, 4, 9, 11, 12, 13 :: int32]
           \<and> (\<forall>x \<in> set [3, 4, 9, 11, 12, 13 :: int32]. 0 < sint x)"
    by simp
  have e: "emitted_ranges [3, 4, 9, 11, 12, 13] = [(3, 4), (9, 9), (11, 13)]"
    by (simp add: emitted_ranges_def reingest_batch_def record_range_def)
  show ?thesis
    using emitted_ranges_maximal_runs [of "[3, 4, 9, 11, 12, 13]"] h e by simp
qed

text \<open>
  Claim C10 as stated fails. For the input \<open>[0]\<close> the loop leaves \<open>start = end = 0\<close> and
  the flush after the loop emits the range \<open>{0,0}\<close>, which holds the element 0. A 0 that
  continues a run ending at \<open>-1\<close> is kept in that run as well.
\<close>

theorem emitted_ranges_zero_counterexample:
  "emitted_ranges [0] = [(0, 0)] \<and> (0 :: int32) \<in> range_set (0, 0)
   \<and> emitted_ranges [- 1, 0, 1] = [(- 1, 1)] \<and> (0 :: int32) \<in> range_set (- 1, 1)"
  by (simp add: emitted_ranges_def reingest_batch_def record_range_def range_set_def)

lemma sint_succ_nonneg:
  fixes b :: int32
  assumes "0 < sint b" "0 \<le> sint (b + 1)"
  shows "sint (b + 1) = sint b + 1"
proof (cases "sint b + 1 < 2 ^ 31")
  case True
  then show ?thesis
    using assms(1) by (simp add: sint_word_ariths signed_take_bit_int_eq_self)
next
  case False
  have "sint b < 2 ^ 31" using sint_lt [of b] by simp
  then have "sint b = sint (2147483647 :: int32)" using False by simp
  then have "b = 2147483647" by (rule sint_eqD)
  then have "sint (b + 1) < 0" by simp
  then show ?thesis using assms(2) by simp
qed

lemma record_loop_nonneg:
  assumes "\<forall>x \<in> set xs. 0 \<le> sint x" "(a = 0 \<and> b = 0) \<or> (0 < sint a \<and> sint a \<le> sint b)"
  shows "\<exists>a' b' ys. (\<forall>rs. outdated_loop record_range xs a b rs = (Return (Inr (a', b')), rs @ ys))
     \<and> (\<forall>r \<in> set ys. 0 < sint (fst r) \<and> sint (fst r) \<le> sint (snd r))
     \<and> ((a' = 0 \<and> b' = 0) \<or> (0 < sint a' \<and> sint a' \<le> sint b'))
     \<and> ((a' = 0) = (if xs = [] then a = 0 else last xs = 0))"
  using assms
proof (induction xs arbitrary: a b)
  case Nil
  show ?case using Nil.prems(2) by (intro exI [of _ a] exI [of _ b] exI [of _ "[]"]) simp
next
  case (Cons x xs)
  have xs0: "\<forall>x \<in> set xs. 0 \<le> sint x" and x0: "0 \<le> sint x" using Cons.prems(1) by simp_all
  have xo: "(x = 0 \<and> x = 0) \<or> (0 < sint x \<and> sint x \<le> sint x)"
  proof (cases "x = 0")
    case False
    then have "sint x \<noteq> sint (0 :: int32)" using sint_eqD by blast
    then show ?thesis using x0 by simp
  qed simp
  from Cons.IH [OF xs0 xo] obtain a1 b1 ys1 where
    h1: "\<forall>rs. outdated_loop record_range xs x x rs = (Return (Inr (a1, b1)), rs @ ys1)"
        "\<forall>r \<in> set ys1. 0 < sint (fst r) \<and> sint (fst r) \<le> sint (snd r)"
        "(a1 = 0 \<and> b1 = 0) \<or> (0 < sint a1 \<and> sint a1 \<le> sint b1)"
        "(a1 = 0) = (if xs = [] then x = 0 else last xs = 0)"
    by (elim exE conjE) (rule that, assumption+)
  have lastx: "(if xs = [] then x = 0 else last xs = 0) = (last (x # xs) = 0)" by simp
  show ?case
  proof (cases "a = 0")
    case True
    have l: "\<forall>rs. outdated_loop record_range (x # xs) a b rs = (Return (Inr (a1, b1)), rs @ ys1)"
      using True h1(1) by simp
    have "(a1 = 0) = (if x # xs = [] then a = 0 else last (x # xs) = 0)"
      using h1(4) lastx by simp
    then show ?thesis using l h1(2) h1(3) by blast
  next
    case False
    then have ab: "0 < sint a" "sint a \<le> sint b" using Cons.prems(2) by auto
    show ?thesis
    proof (cases "x = b + 1")
      case True
      have sx: "sint x = sint b + 1"
        using sint_succ_nonneg [of b] ab x0 True by simp
      have ax: "(a = 0 \<and> x = 0) \<or> (0 < sint a \<and> sint a \<le> sint x)" using ab sx by simp
      from Cons.IH [OF xs0 ax] obtain a2 b2 ys2 where
        h2: "\<forall>rs. outdated_loop record_range xs a x rs = (Return (Inr (a2, b2)), rs @ ys2)"
            "\<forall>r \<in> set ys2. 0 < sint (fst r) \<and> sint (fst r) \<le> sint (snd r)"
            "(a2 = 0 \<and> b2 = 0) \<or> (0 < sint a2 \<and> sint a2 \<le> sint b2)"
            "(a2 = 0) = (if xs = [] then a = 0 else last xs = 0)"
        by (elim exE conjE) (rule that, assumption+)
      have l: "\<forall>rs. outdated_loop record_range (x # xs) a b rs = (Return (Inr (a2, b2)), rs @ ys2)"
        using False True h2(1) by simp
      have xn: "x \<noteq> 0" using sx ab by auto
      have "(a2 = 0) = (if x # xs = [] then a = 0 else last (x # xs) = 0)"
        using h2(4) False xn by simp
      then show ?thesis using l h2(2) h2(3) by blast
    next
      case nx: False
      have l: "\<forall>rs. outdated_loop record_range (x # xs) a b rs =
                 (Return (Inr (a1, b1)), rs @ ((a, b) # ys1))"
        using False nx h1(1) by (simp add: record_range_def)
      have p: "\<forall>r \<in> set ((a, b) # ys1). 0 < sint (fst r) \<and> sint (fst r) \<le> sint (snd r)"
        using h1(2) ab by simp
      have "(a1 = 0) = (if x # xs = [] then a = 0 else last (x # xs) = 0)"
        using h1(4) lastx by simp
      then show ?thesis using l p h1(3) by blast
    qed
  qed
qed

lemma emitted_ranges_leading_zero:
  assumes "outdated \<noteq> []"
  shows "emitted_ranges (0 # outdated) = emitted_ranges outdated"
proof -
  obtain x xs where o: "outdated = x # xs" using assms by (cases outdated) auto
  show ?thesis unfolding o by (simp add: emitted_ranges_def reingest_batch_def)
qed

text \<open>
  Claim C10, amended. The loop uses 0 as its mark for "no run open". For every input
  list of sequence numbers that are not negative and at least one element: an emitted
  range holds 0 only if it is the range \<open>{0,0}\<close> and the last element of the input is 0;
  when the last element is 0 the last emitted range is \<open>{0,0}\<close> (the flush after the
  loop); a 0 anywhere else leaves the run unopened and the next element opens it, so a
  leading 0 before further elements changes nothing. The batching described for the sweep
  therefore needs every input sequence number to be at least 1.
\<close>

theorem emitted_ranges_zero_sentinel:
  "(\<forall>x \<in> set outdated. 0 \<le> sint x) \<and> outdated \<noteq> [] \<longrightarrow>
      (\<forall>r \<in> set (emitted_ranges outdated). 0 \<in> range_set r \<longrightarrow> r = (0, 0) \<and> last outdated = 0)
      \<and> (last outdated = 0 \<longrightarrow>
            emitted_ranges outdated \<noteq> [] \<and> last (emitted_ranges outdated) = (0, 0))
      \<and> emitted_ranges (0 # outdated) = emitted_ranges outdated"
proof (intro impI)
  assume h: "(\<forall>x \<in> set outdated. 0 \<le> sint x) \<and> outdated \<noteq> []"
  then obtain x xs where o: "outdated = x # xs" by (cases outdated) auto
  have xs0: "\<forall>x \<in> set xs. 0 \<le> sint x" and x0: "0 \<le> sint x" using h o by simp_all
  have xo: "(x = 0 \<and> x = 0) \<or> (0 < sint x \<and> sint x \<le> sint x)"
  proof (cases "x = 0")
    case False
    then have "sint x \<noteq> sint (0 :: int32)" using sint_eqD by blast
    then show ?thesis using x0 by simp
  qed simp
  from record_loop_nonneg [OF xs0 xo] obtain a' b' ys where
    l: "\<forall>rs. outdated_loop record_range xs x x rs = (Return (Inr (a', b')), rs @ ys)"
    and p: "\<forall>r \<in> set ys. 0 < sint (fst r) \<and> sint (fst r) \<le> sint (snd r)"
       "(a' = 0 \<and> b' = 0) \<or> (0 < sint a' \<and> sint a' \<le> sint b')"
       "(a' = 0) = (if xs = [] then x = 0 else last xs = 0)"
    by (elim exE conjE) (rule that, assumption+)
  have e: "emitted_ranges outdated = ys @ [(a', b')]"
    using emitted_ranges_Cons [OF l] o by simp
  have la: "(a' = 0) = (last outdated = 0)" using p(3) o by simp
  have c1: "\<forall>r \<in> set (emitted_ranges outdated). 0 \<in> range_set r \<longrightarrow> r = (0, 0) \<and> last outdated = 0"
  proof (intro ballI impI)
    fix r assume r: "r \<in> set (emitted_ranges outdated)" and z: "0 \<in> range_set r"
    have nz: "\<not> 0 < sint (fst r)" using z by (simp add: range_set_def)
    then have "r \<notin> set ys" using p(1) by blast
    then have re: "r = (a', b')" using r e by simp
    then have "a' = 0 \<and> b' = 0" using p(2) nz by auto
    then show "r = (0, 0) \<and> last outdated = 0" using re la by simp
  qed
  have c2: "last outdated = 0 \<longrightarrow> emitted_ranges outdated \<noteq> [] \<and> last (emitted_ranges outdated) = (0, 0)"
    using e la p(2) by auto
  show "(\<forall>r \<in> set (emitted_ranges outdated). 0 \<in> range_set r \<longrightarrow> r = (0, 0) \<and> last outdated = 0)
      \<and> (last outdated = 0 \<longrightarrow>
            emitted_ranges outdated \<noteq> [] \<and> last (emitted_ranges outdated) = (0, 0))
      \<and> emitted_ranges (0 # outdated) = emitted_ranges outdated"
    using c1 c2 emitted_ranges_leading_zero h by blast
qed

theorem emitted_ranges_zero_sentinel_witness:
  "emitted_ranges [0, 4, 5, 0] = [(4, 5), (0, 0)]
   \<and> last (emitted_ranges [4, 5, 0]) = (0, 0)
   \<and> emitted_ranges [0, 4, 5, 0] = emitted_ranges [4, 5, 0]"
proof -
  have h: "(\<forall>x \<in> set [4, 5, 0 :: int32]. 0 \<le> sint x) \<and> [4, 5, 0 :: int32] \<noteq> []" by simp
  have e: "emitted_ranges [0, 4, 5, 0] = [(4, 5), (0, 0)]"
    by (simp add: emitted_ranges_def reingest_batch_def record_range_def)
  show ?thesis
    using emitted_ranges_zero_sentinel [of "[4, 5, 0]"] h e by simp
qed

subsection \<open>The sweep\<close>

text \<open>
  The loop over one query result, run with the flusher of the sweep, does what
  \<open>spec_run_ranges\<close> does on the ranges the loop emits.
\<close>

lemma record_loop_append:
  "\<exists>a' b' ys. \<forall>rs. outdated_loop record_range xs a b rs = (Return (Inr (a', b')), rs @ ys)"
proof (induction xs arbitrary: a b)
  case Nil
  show ?case by simp
next
  case (Cons x xs)
  from Cons.IH [of x x] obtain a1 b1 ys1 where
    h1: "\<forall>rs. outdated_loop record_range xs x x rs = (Return (Inr (a1, b1)), rs @ ys1)" by blast
  from Cons.IH [of a x] obtain a2 b2 ys2 where
    h2: "\<forall>rs. outdated_loop record_range xs a x rs = (Return (Inr (a2, b2)), rs @ ys2)" by blast
  show ?case
  proof (cases "a = 0")
    case True
    then have "\<forall>rs. outdated_loop record_range (x # xs) a b rs = (Return (Inr (a1, b1)), rs @ ys1)"
      using h1 by simp
    then show ?thesis by blast
  next
    case False
    show ?thesis
    proof (cases "x = b + 1")
      case True
      then have "\<forall>rs. outdated_loop record_range (x # xs) a b rs = (Return (Inr (a2, b2)), rs @ ys2)"
        using False h2 by simp
      then show ?thesis by blast
    next
      case nx: False
      have "\<forall>rs. outdated_loop record_range (x # xs) a b rs = (Return (Inr (a1, b1)), rs @ ((a, b) # ys1))"
        using False nx h1 by (simp add: record_range_def)
      then show ?thesis by blast
    qed
  qed
qed

lemma run_ranges_single: "spec_run_ranges env [(a, b)] c = flush env a b c"
  by (auto simp: flush_def split: prod.splits outcome.splits option.splits)

lemma run_ranges_append:
  "spec_run_ranges env (rs @ rs') c =
     (case spec_run_ranges env rs c of
        (Return None, c') \<Rightarrow> spec_run_ranges env rs' c'
      | (Return (Some err), c') \<Rightarrow> (Return (Some err), c')
      | (Panic v fr, c') \<Rightarrow> (Panic v fr, c'))"
proof (induction rs arbitrary: c)
  case Nil
  show ?case by simp
next
  case (Cons r rs)
  obtain a b where r: "r = (a, b)" by (cases r)
  obtain n s where c: "c = (n, s)" by (cases c)
  show ?case
    unfolding r c
    by (simp add: Cons.IH split: prod.splits outcome.splits option.splits)
qed

lemma outdated_loop_run_ranges:
  assumes "\<forall>rs. outdated_loop record_range xs a b rs = (Return (Inr (a', b')), rs @ ys)"
  shows "outdated_loop (flush env) xs a b c =
     (case spec_run_ranges env ys c of
        (Return None, c') \<Rightarrow> (Return (Inr (a', b')), c')
      | (Return (Some err), c') \<Rightarrow> (Return (Inl err), c')
      | (Panic v fr, c') \<Rightarrow> (Panic v fr, c'))"
  using assms
proof (induction xs arbitrary: a b c ys)
  case Nil
  then have "ys = []" "a' = a" "b' = b" by simp_all
  then show ?case by simp
next
  case (Cons x xs)
  show ?case
  proof (cases "a = 0")
    case True
    then have "\<forall>rs. outdated_loop record_range xs x x rs = (Return (Inr (a', b')), rs @ ys)"
      using Cons.prems by simp
    from Cons.IH [OF this] show ?thesis using True by simp
  next
    case False
    show ?thesis
    proof (cases "x = b + 1")
      case True
      then have "\<forall>rs. outdated_loop record_range xs a x rs = (Return (Inr (a', b')), rs @ ys)"
        using False Cons.prems by simp
      from Cons.IH [OF this] show ?thesis using False True by simp
    next
      case nx: False
      from record_loop_append [of xs x x] obtain a1 b1 ys1 where
        h1: "\<forall>rs. outdated_loop record_range xs x x rs = (Return (Inr (a1, b1)), rs @ ys1)"
        by blast
      have "outdated_loop record_range (x # xs) a b [] = (Return (Inr (a1, b1)), (a, b) # ys1)"
        using False nx h1 by (simp add: record_range_def)
      then have e: "ys = (a, b) # ys1" "a' = a1" "b' = b1" using Cons.prems by simp_all
      have ih: "outdated_loop (flush env) xs x x c1 =
         (case spec_run_ranges env ys1 c1 of
            (Return None, c') \<Rightarrow> (Return (Inr (a', b')), c')
          | (Return (Some err), c') \<Rightarrow> (Return (Inl err), c')
          | (Panic v fr, c') \<Rightarrow> (Panic v fr, c'))" for c1
      proof -
        have "\<forall>rs. outdated_loop record_range xs x x rs = (Return (Inr (a', b')), rs @ ys1)"
          using h1 e by simp
        from Cons.IH [OF this] show ?thesis .
      qed
      obtain n s where c: "c = (n, s)" by (cases c)
      have step: "outdated_loop (flush env) (x # xs) a b (n, s) =
         (case flush env a b (n, s) of
            (Panic v fr, c') \<Rightarrow> (Panic v fr, c')
          | (Return (Some err), c') \<Rightarrow> (Return (Inl err), c')
          | (Return None, c') \<Rightarrow> outdated_loop (flush env) xs x x c')"
        using False nx by simp
      have f: "flush env a b (n, s) =
         (case ReingestRange env a b s of
            (Panic v fr, s') \<Rightarrow> (Panic v fr, (n, s'))
          | (Return (k, Some err), s') \<Rightarrow> (Return (Some err), (n, s'))
          | (Return (k, None), s') \<Rightarrow> (Return None, (n + k, s')))"
        by (simp add: flush_def)
      show ?thesis
        unfolding e(1) c step f
        by (simp add: ih split: prod.splits outcome.splits option.splits)
    qed
  qed
qed

lemma reingest_batch_run_ranges:
  assumes "outdated \<noteq> []"
  shows "reingest_batch (flush env) outdated c = spec_run_ranges env (emitted_ranges outdated) c"
proof -
  from record_loop_append [of outdated 0 0] obtain a' b' ys where
    l: "\<forall>rs. outdated_loop record_range outdated 0 0 rs = (Return (Inr (a', b')), rs @ ys)"
    by blast
  have e: "emitted_ranges outdated = ys @ [(a', b')]"
    using assms l by (simp add: emitted_ranges_def reingest_batch_def record_range_def)
  show ?thesis
    unfolding e reingest_batch_def outdated_loop_run_ranges [OF l] run_ranges_append
    by (simp add: run_ranges_single del: spec_run_ranges.simps
          split: prod.splits outcome.splits option.splits)
qed

lemma sweep_nil_error_after_empty_query:
  assumes "ReingestOutdated_from env c = Some y"
  shows "\<forall>t s'. y = (Return (t, None), s') \<longrightarrow>
           (\<exists>w. OldestOutdatedLedgers env (CurrentVersion env) w = (Return (Inr []), world s'))"
proof (rule ReingestOutdated_from.raw_induct
    [where P = "\<lambda>env c y. \<forall>t s'. y = (Return (t, None), s') \<longrightarrow>
           (\<exists>w. OldestOutdatedLedgers env (CurrentVersion env) w = (Return (Inr []), world s'))",
     OF _ assms], goal_cases)
  case (1 f env c y)
  obtain n s where c: "c = (n, s)" by (cases c)
  obtain r w where q: "OldestOutdatedLedgers env (CurrentVersion env) (world s) = (r, w)"
    by (cases "OldestOutdatedLedgers env (CurrentVersion env) (world s)")
  show ?case
  proof (cases r)
    case (Panic v fr)
    then show ?thesis using 1(2) c q by auto
  next
    case (Return e)
    show ?thesis
    proof (cases e)
      case (Inl err)
      then show ?thesis using 1(2) c q Return by auto
    next
      case (Inr outdated)
      show ?thesis
      proof (cases "outdated = []")
        case True
        then have "y = (Return (n, None), s\<lparr>world := w\<rparr>)"
          using 1(2) c q Return Inr by simp
        moreover have "OldestOutdatedLedgers env (CurrentVersion env) (world s) = (Return (Inr []), w)"
          using q Return Inr True by simp
        ultimately show ?thesis by auto
      next
        case False
        let ?s1 = "log_write
                      (LogInfo ''reingest: outdated''
                         [(''lowest_sequence'', sint (outdated ! 0)),
                          (''batch_size'', int (length outdated))])
                      (s\<lparr>world := w\<rparr>)"
        obtain r2 n' s' where b: "reingest_batch (flush env) outdated (n, ?s1) = (r2, (n', s'))"
          by (cases "reingest_batch (flush env) outdated (n, ?s1)") auto
        have y: "(case r2 of
                   Panic v fr \<Rightarrow> Some (Panic v fr, s')
                 | Return (Some err) \<Rightarrow> Some (Return (n', Some err), s')
                 | Return None \<Rightarrow> f env (n', s')) = Some y"
          using 1(2) c q Return Inr False b
          by (simp add: Let_def split: outcome.splits option.splits)
        show ?thesis
        proof (cases r2)
          case (Panic v fr)
          then show ?thesis using y by auto
        next
          case r2: (Return e2)
          show ?thesis
          proof (cases e2)
            case None
            then have "f env (n', s') = Some y" using y r2 by simp
            from 1(1) [OF this] show ?thesis .
          next
            case (Some err)
            then show ?thesis using y r2 by auto
          qed
        qed
      qed
    qed
  qed
qed

text \<open>
  Claim C5. \<open>ReingestOutdated\<close> starts the sweep with a total of 0. One pass of the sweep
  queries the outdated ledgers. A panic or an error of the query ends the sweep with that
  error and the total so far. An empty result ends the sweep with the total and a nil
  error. Otherwise the driver is run once per emitted range, in order, adding each count
  to the total; the first range that fails ends the sweep with its error and the total of
  the ranges before it, and no later range is run; when all ranges succeed the sweep
  queries again. A sweep that returns a nil error has ended on a query that returned the
  empty list.
\<close>

theorem ReingestOutdated_sweep:
  "ReingestOutdated env s = ReingestOutdated_from env (0, s)
   \<and> ReingestOutdated_from env (n, s) =
       (case OldestOutdatedLedgers env (CurrentVersion env) (world s) of
          (Panic v fr, w) \<Rightarrow> Some (Panic v fr, s\<lparr>world := w\<rparr>)
        | (Return (Inl err), w) \<Rightarrow> Some (Return (n, Some err), s\<lparr>world := w\<rparr>)
        | (Return (Inr outdated), w) \<Rightarrow>
            if outdated = [] then Some (Return (n, None), s\<lparr>world := w\<rparr>)
            else
              (case spec_run_ranges env (emitted_ranges outdated)
                      (n, log_write
                            (LogInfo ''reingest: outdated''
                               [(''lowest_sequence'', sint (outdated ! 0)),
                                (''batch_size'', int (length outdated))])
                            (s\<lparr>world := w\<rparr>)) of
                 (Panic v fr, (n', s')) \<Rightarrow> Some (Panic v fr, s')
               | (Return (Some err), (n', s')) \<Rightarrow> Some (Return (n', Some err), s')
               | (Return None, c') \<Rightarrow> ReingestOutdated_from env c'))
   \<and> (ReingestOutdated_from env (n, s) = Some (Return (tot, None), s') \<longrightarrow>
        (\<exists>w. OldestOutdatedLedgers env (CurrentVersion env) w = (Return (Inr []), world s')))"
proof (intro conjI)
  show "ReingestOutdated env s = ReingestOutdated_from env (0, s)"
    by (simp add: ReingestOutdated_def)
next
  show "ReingestOutdated_from env (n, s) =
       (case OldestOutdatedLedgers env (CurrentVersion env) (world s) of
          (Panic v fr, w) \<Rightarrow> Some (Panic v fr, s\<lparr>world := w\<rparr>)
        | (Return (Inl err), w) \<Rightarrow> Some (Return (n, Some err), s\<lparr>world := w\<rparr>)
        | (Return (Inr outdated), w) \<Rightarrow>
            if outdated = [] then Some (Return (n, None), s\<lparr>world := w\<rparr>)
            else
              (case spec_run_ranges env (emitted_ranges outdated)
                      (n, log_write
                            (LogInfo ''reingest: outdated''
                               [(''lowest_sequence'', sint (outdated ! 0)),
                                (''batch_size'', int (length outdated))])
                            (s\<lparr>world := w\<rparr>)) of
                 (Panic v fr, (n', s')) \<Rightarrow> Some (Panic v fr, s')
               | (Return (Some err), (n', s')) \<Rightarrow> Some (Return (n', Some err), s')
               | (Return None, c') \<Rightarrow> ReingestOutdated_from env c'))"
    by (subst ReingestOutdated_from.simps)
       (simp add: reingest_batch_run_ranges Let_def
          split: prod.splits outcome.splits sum.splits)
next
  show "ReingestOutdated_from env (n, s) = Some (Return (tot, None), s') \<longrightarrow>
        (\<exists>w. OldestOutdatedLedgers env (CurrentVersion env) w = (Return (Inr []), world s'))"
    using sweep_nil_error_after_empty_query [of env "(n, s)" "(Return (tot, None), s')"]
    by blast
qed

theorem ReingestOutdated_sweep_witness:
  "ReingestOutdated stub_env (stub_state 100 40 (stub_world0\<lparr>pages := [[3, 4, 5]]\<rparr>)) =
     Some (Return (60, None),
       \<lparr>coreSequence = 100, historySequence = 40,
        world = stub_world0\<lparr>hist_seq := 100,
                  ran := [\<lparr>fromSeq = 41, toSeq = 100, version = 8, ClearExisting = True,
                           Ingested = 0\<rparr>]\<rparr>,
        logged = [LogInfo ''reingest: outdated'' [(''lowest_sequence'', 3), (''batch_size'', 3)]],
        reported = []\<rparr>)
   \<and> (\<exists>w. OldestOutdatedLedgers stub_env (CurrentVersion stub_env) w =
         (Return (Inr []),
          stub_world0\<lparr>hist_seq := 100,
                  ran := [\<lparr>fromSeq = 41, toSeq = 100, version = 8, ClearExisting = True,
                           Ingested = 0\<rparr>]\<rparr>))"
proof -
  let ?s = "stub_state 100 40 (stub_world0\<lparr>pages := [[3, 4, 5]]\<rparr>)"
  let ?s' = "\<lparr>coreSequence = 100, historySequence = 40,
        world = stub_world0\<lparr>hist_seq := 100,
                  ran := [\<lparr>fromSeq = 41, toSeq = 100, version = 8, ClearExisting = True,
                           Ingested = 0\<rparr>]\<rparr>,
        logged = [LogInfo ''reingest: outdated'' [(''lowest_sequence'', 3), (''batch_size'', 3)]],
        reported = []\<rparr>"
  have ev: "ReingestOutdated_from stub_env (0, ?s) = Some (Return (60, None), ?s')"
    by code_simp
  note t = ReingestOutdated_sweep [of stub_env ?s 0 60 ?s']
  show ?thesis using t ev by simp
qed

text \<open>
  Claim C9. When \<open>Run\<close> returns an error, \<open>ReingestRange\<close> returns that error
  together with the session's \<open>Ingested\<close> as \<open>Run\<close> left it; \<open>flush\<close> then
  returns the error and leaves \<open>n\<close> as it was. In the sweep, when the ranges before
  the failing one completed and brought the total to \<open>n\<close>, the sweep returns \<open>n\<close>
  and the error: the count of the failing range is not part of the total.
\<close>

theorem failing_range_count_discarded:
  "session_Run env
       ((NewSession (historySequence s + 1) (coreSequence s) (CurrentVersion env))
          \<lparr>ClearExisting := True\<rparr>) (world s) = (Return (Some err, is2), w) \<longrightarrow>
     ReingestRange env start end' s = (Return (Ingested is2, Some err), s\<lparr>world := w\<rparr>)
     \<and> flush env start end' (n, s) = (Return (Some err), (n, s\<lparr>world := w\<rparr>))
     \<and> (OldestOutdatedLedgers env (CurrentVersion env) (world s0) = (Return (Inr outdated), w0)
          \<and> outdated \<noteq> []
          \<and> emitted_ranges outdated = completed @ (start, end') # rest
          \<and> spec_run_ranges env completed
                (n0, log_write
                       (LogInfo ''reingest: outdated''
                          [(''lowest_sequence'', sint (outdated ! 0)),
                           (''batch_size'', int (length outdated))])
                       (s0\<lparr>world := w0\<rparr>)) = (Return None, (n, s))
          \<longrightarrow> ReingestOutdated_from env (n0, s0) = Some (Return (n, Some err), s\<lparr>world := w\<rparr>))"
proof (intro impI conjI)
  assume run: "session_Run env
       ((NewSession (historySequence s + 1) (coreSequence s) (CurrentVersion env))
          \<lparr>ClearExisting := True\<rparr>) (world s) = (Return (Some err, is2), w)"
  show rr: "ReingestRange env start end' s = (Return (Ingested is2, Some err), s\<lparr>world := w\<rparr>)"
    using run by (simp add: ReingestRange_def)
  show fl: "flush env start end' (n, s) = (Return (Some err), (n, s\<lparr>world := w\<rparr>))"
    using rr by (simp add: flush_def)
  assume q: "OldestOutdatedLedgers env (CurrentVersion env) (world s0) = (Return (Inr outdated), w0)
          \<and> outdated \<noteq> []
          \<and> emitted_ranges outdated = completed @ (start, end') # rest
          \<and> spec_run_ranges env completed
                (n0, log_write
                       (LogInfo ''reingest: outdated''
                          [(''lowest_sequence'', sint (outdated ! 0)),
                           (''batch_size'', int (length outdated))])
                       (s0\<lparr>world := w0\<rparr>)) = (Return None, (n, s))"
  have tl: "spec_run_ranges env ((start, end') # rest) (n, s) = (Return (Some err), (n, s\<lparr>world := w\<rparr>))"
    using rr by simp
  have "reingest_batch (flush env) outdated
          (n0, log_write
                 (LogInfo ''reingest: outdated''
                    [(''lowest_sequence'', sint (outdated ! 0)),
                     (''batch_size'', int (length outdated))])
                 (s0\<lparr>world := w0\<rparr>)) = (Return (Some err), (n, s\<lparr>world := w\<rparr>))"
    using q tl by (simp add: reingest_batch_run_ranges run_ranges_append del: spec_run_ranges.simps)
  then show "ReingestOutdated_from env (n0, s0) = Some (Return (n, Some err), s\<lparr>world := w\<rparr>)"
    using q by (subst ReingestOutdated_from.simps) (simp add: Let_def)
qed

theorem failing_range_count_discarded_witness:
  "ReingestRange stub_env 9 9
      \<lparr>coreSequence = 100, historySequence = 40,
       world = \<lparr>core_seq = 100, hist_seq = 100, core_fault = None, hist_fault = None,
                 pages = [], run_script = [FailsAfter 3 (Error ''disk full'')],
                 ran = [\<lparr>fromSeq = 41, toSeq = 100, version = 8, ClearExisting = True,
                          Ingested = 0\<rparr>]\<rparr>,
       logged = [LogInfo ''reingest: outdated'' [(''lowest_sequence'', 3), (''batch_size'', 4)]],
       reported = []\<rparr> =
     (Return (3, Some (Error ''disk full'')),
      \<lparr>coreSequence = 100, historySequence = 40,
       world = \<lparr>core_seq = 100, hist_seq = 100, core_fault = None, hist_fault = None,
                 pages = [], run_script = [],
                 ran = [\<lparr>fromSeq = 41, toSeq = 100, version = 8, ClearExisting = True,
                          Ingested = 0\<rparr>,
                        \<lparr>fromSeq = 41, toSeq = 100, version = 8, ClearExisting = True,
                          Ingested = 0\<rparr>]\<rparr>,
       logged = [LogInfo ''reingest: outdated'' [(''lowest_sequence'', 3), (''batch_size'', 4)]],
       reported = []\<rparr>)
   \<and> ReingestOutdated_from stub_env
        (0, stub_state 100 40
              (stub_world0\<lparr>pages := [[3, 4, 5, 9]],
                 run_script := [RunsAll, FailsAfter 3 (Error ''disk full'')]\<rparr>)) =
     Some (Return (60, Some (Error ''disk full'')),
      \<lparr>coreSequence = 100, historySequence = 40,
       world = \<lparr>core_seq = 100, hist_seq = 100, core_fault = None, hist_fault = None,
                 pages = [], run_script = [],
                 ran = [\<lparr>fromSeq = 41, toSeq = 100, version = 8, ClearExisting = True,
                          Ingested = 0\<rparr>,
                        \<lparr>fromSeq = 41, toSeq = 100, version = 8, ClearExisting = True,
                          Ingested = 0\<rparr>]\<rparr>,
       logged = [LogInfo ''reingest: outdated'' [(''lowest_sequence'', 3), (''batch_size'', 4)]],
       reported = []\<rparr>)"
proof -
  let ?sess = "\<lparr>fromSeq = 41, toSeq = 100, version = 8, ClearExisting = True, Ingested = 0\<rparr>"
  let ?log = "[LogInfo ''reingest: outdated'' [(''lowest_sequence'', 3), (''batch_size'', 4)]]"
  let ?wmid = "\<lparr>core_seq = 100, hist_seq = 100, core_fault = None, hist_fault = None,
                 pages = [], run_script = [FailsAfter 3 (Error ''disk full'')], ran = [?sess]\<rparr>"
  let ?wend = "\<lparr>core_seq = 100, hist_seq = 100, core_fault = None, hist_fault = None,
                 pages = [], run_script = [], ran = [?sess, ?sess]\<rparr>"
  let ?smid = "\<lparr>coreSequence = 100, historySequence = 40, world = ?wmid, logged = ?log,
                 reported = []\<rparr>"
  let ?w00 = "stub_world0\<lparr>pages := [[3, 4, 5, 9]],
                 run_script := [RunsAll, FailsAfter 3 (Error ''disk full'')]\<rparr>"
  let ?s00 = "stub_state 100 40 ?w00"
  have run: "session_Run stub_env
       ((NewSession (historySequence ?smid + 1) (coreSequence ?smid) (CurrentVersion stub_env))
          \<lparr>ClearExisting := True\<rparr>) (world ?smid) =
       (Return (Some (Error ''disk full''), ?sess\<lparr>Ingested := 3\<rparr>), ?wend)"
    by (simp add: NewSession_def stub_defs)
  have q: "OldestOutdatedLedgers stub_env (CurrentVersion stub_env) (world ?s00) =
             (Return (Inr [3, 4, 5, 9]), ?w00\<lparr>pages := []\<rparr>)"
    by (simp add: stub_defs)
  have e: "emitted_ranges [3, 4, 5, 9] = [(3, 5)] @ (9, 9) # []"
    by (simp add: emitted_ranges_def reingest_batch_def record_range_def)
  have c: "spec_run_ranges stub_env [(3, 5)]
             (0, log_write
                   (LogInfo ''reingest: outdated''
                      [(''lowest_sequence'', sint ([3, 4, 5, 9 :: int32] ! 0)),
                       (''batch_size'', int (length [3, 4, 5, 9 :: int32]))])
                   (?s00\<lparr>world := ?w00\<lparr>pages := []\<rparr>\<rparr>)) = (Return None, (60, ?smid))"
    by (simp add: ReingestRange_def NewSession_def log_write_def stub_defs)
  note t = failing_range_count_discarded
    [where env = stub_env and s = ?smid and err = "Error ''disk full''"
       and ?is2.0 = "?sess\<lparr>Ingested := 3\<rparr>" and w = ?wend and start = 9 and end' = 9
       and n = 60 and ?s0.0 = ?s00 and outdated = "[3, 4, 5, 9]" and ?w0.0 = "?w00\<lparr>pages := []\<rparr>"
       and completed = "[(3, 5)]" and rest = "[]" and ?n0.0 = 0, rule_format, OF run]
  have r1: "ReingestRange stub_env 9 9 ?smid =
              (Return (3, Some (Error ''disk full'')), ?smid\<lparr>world := ?wend\<rparr>)"
    using t by simp
  have r2: "ReingestOutdated_from stub_env (0, ?s00) =
              Some (Return (60, Some (Error ''disk full'')), ?smid\<lparr>world := ?wend\<rparr>)"
    using t q e c by simp
  show ?thesis using r1 r2 by simp
qed

subsection \<open>The poller\<close>

lemma runOnce_loop_unfold:
  "runOnce_loop env s =
     (case updateLedgerState env s of
        (Panic v fr, s1) \<Rightarrow> Some (Panic v fr, s1)
      | (Return (Some err), s1) \<Rightarrow>
          Some (Return (), log_write (LogErrorf ''could not load ledger state: %s'' err) s1)
      | (Return None, s1) \<Rightarrow>
          if sint (coreSequence s1) \<le> sint (historySequence s1) then Some (Return (), s1)
          else
            (let is0 = NewSession (historySequence s1 + 1) (coreSequence s1) (CurrentVersion env)
             in case session_Run env is0 (world s1) of
                  (Panic v fr, w) \<Rightarrow> Some (Panic v fr, s1\<lparr>world := w\<rparr>)
                | (Return (Some err, is1), w) \<Rightarrow>
                    Some (Return (),
                          log_write (LogStackErrorf ''import session failed: %s'' err)
                            (s1\<lparr>world := w\<rparr>))
                | (Return (None, is1), w) \<Rightarrow>
                    if Ingested is1 = 0 then Some (Return (), s1\<lparr>world := w\<rparr>)
                    else runOnce_loop env (s1\<lparr>world := w\<rparr>)))"
  by (rule runOnce_loop.simps)

lemma runOnce_loop_idle:
  assumes "updateLedgerState env s = (Return None, s1)"
    "sint (coreSequence s1) \<le> sint (historySequence s1)"
  shows "runOnce_loop env s = Some (Return (), s1)"
  by (subst runOnce_loop_unfold) (simp add: assms)

lemma runOnce_loop_session_error:
  assumes "updateLedgerState env s = (Return None, s1)"
    "sint (historySequence s1) < sint (coreSequence s1)"
    "session_Run env (NewSession (historySequence s1 + 1) (coreSequence s1) (CurrentVersion env))
       (world s1) = (Return (Some err, is1), w)"
  shows "runOnce_loop env s =
           Some (Return (), log_write (LogStackErrorf ''import session failed: %s'' err)
                              (s1\<lparr>world := w\<rparr>))"
proof -
  have n: "\<not> sint (coreSequence s1) \<le> sint (historySequence s1)" using assms(2) by simp
  show ?thesis by (subst runOnce_loop_unfold) (simp add: assms(1) assms(3) n)
qed

lemma runOnce_loop_session_ok:
  assumes "updateLedgerState env s = (Return None, s1)"
    "sint (historySequence s1) < sint (coreSequence s1)"
    "session_Run env (NewSession (historySequence s1 + 1) (coreSequence s1) (CurrentVersion env))
       (world s1) = (Return (None, is1), w)"
  shows "runOnce_loop env s =
           (if Ingested is1 = 0 then Some (Return (), s1\<lparr>world := w\<rparr>)
            else runOnce_loop env (s1\<lparr>world := w\<rparr>))"
proof -
  have n: "\<not> sint (coreSequence s1) \<le> sint (historySequence s1)" using assms(2) by simp
  show ?thesis by (subst runOnce_loop_unfold) (simp add: assms(1) assms(3) n)
qed

lemma runOnce_loop_session_panic:
  assumes "updateLedgerState env s = (Return None, s1)"
    "sint (historySequence s1) < sint (coreSequence s1)"
    "session_Run env (NewSession (historySequence s1 + 1) (coreSequence s1) (CurrentVersion env))
       (world s1) = (Panic v fr, w)"
  shows "runOnce_loop env s = Some (Panic v fr, s1\<lparr>world := w\<rparr>)"
proof -
  have n: "\<not> sint (coreSequence s1) \<le> sint (historySequence s1)" using assms(2) by simp
  show ?thesis by (subst runOnce_loop_unfold) (simp add: assms(1) assms(3) n)
qed

lemma runOnce_loop_refresh_panic:
  assumes "updateLedgerState env s = (Panic v fr, s1)"
  shows "runOnce_loop env s = Some (Panic v fr, s1)"
  by (subst runOnce_loop_unfold) (simp add: assms)

lemma runOnce_of_loop_eq:
  assumes "runOnce_loop env s = runOnce_loop env s'"
  shows "runOnce env s = runOnce env s'"
  by (simp add: runOnce_def assms)

lemma runOnce_of_loop_Return:
  assumes "runOnce_loop env s = Some (Return u, s')"
  shows "runOnce env s = Some (Return (), s')"
  by (simp add: runOnce_def assms)

text \<open>
  Claim C6. After a successful refresh, \<open>runOnce\<close> returns without running a session
  when \<open>historySequence >= coreSequence\<close>: it leaves the state the refresh left.
  Otherwise it runs one session over \<open>[historySequence+1, coreSequence]\<close>; it returns
  when the session returns an error (one log line added) or has ingested zero ledgers,
  and it starts over with a fresh refresh when the count is not zero (a count is never
  negative, so that is a positive count). With the source store at 100, the history store
  at 40 and a session that ingests all it is asked for, one iteration runs one session
  over \<open>[41, 100]\<close> and ends with \<open>historySequence = 100\<close>; the iteration after it
  runs no session and returns with the state unchanged.
\<close>

theorem runOnce_iteration:
  "(updateLedgerState env s = (Return None, s1) \<longrightarrow>
      (sint (coreSequence s1) \<le> sint (historySequence s1) \<longrightarrow>
         runOnce env s = Some (Return (), s1))
      \<and> (sint (historySequence s1) < sint (coreSequence s1) \<longrightarrow>
           (session_Run env
              (NewSession (historySequence s1 + 1) (coreSequence s1) (CurrentVersion env))
              (world s1) = (Return (Some err, is1), w) \<longrightarrow>
            runOnce env s =
              Some (Return (), log_write (LogStackErrorf ''import session failed: %s'' err)
                                 (s1\<lparr>world := w\<rparr>)))
           \<and> (session_Run env
                (NewSession (historySequence s1 + 1) (coreSequence s1) (CurrentVersion env))
                (world s1) = (Return (None, is1), w) \<longrightarrow>
              (Ingested is1 = 0 \<longrightarrow> runOnce env s = Some (Return (), s1\<lparr>world := w\<rparr>))
              \<and> (Ingested is1 \<noteq> 0 \<longrightarrow> runOnce env s = runOnce env (s1\<lparr>world := w\<rparr>)))))
   \<and> runOnce stub_env (stub_state 100 40 stub_world0) =
         Some (Return (),
           stub_state 100 100
             (stub_world0\<lparr>hist_seq := 100,
                ran := [\<lparr>fromSeq = 41, toSeq = 100, version = 8, ClearExisting = False,
                         Ingested = 0\<rparr>]\<rparr>))
   \<and> runOnce stub_env
         (stub_state 100 100
             (stub_world0\<lparr>hist_seq := 100,
                ran := [\<lparr>fromSeq = 41, toSeq = 100, version = 8, ClearExisting = False,
                         Ingested = 0\<rparr>]\<rparr>)) =
         Some (Return (),
           stub_state 100 100
             (stub_world0\<lparr>hist_seq := 100,
                ran := [\<lparr>fromSeq = 41, toSeq = 100, version = 8, ClearExisting = False,
                         Ingested = 0\<rparr>]\<rparr>))"
proof (intro conjI impI)
  assume u: "updateLedgerState env s = (Return None, s1)"
  {
    assume "sint (coreSequence s1) \<le> sint (historySequence s1)"
    from runOnce_loop_idle [OF u this] show "runOnce env s = Some (Return (), s1)"
      by (rule runOnce_of_loop_Return)
  }
  assume lt: "sint (historySequence s1) < sint (coreSequence s1)"
  {
    assume "session_Run env
              (NewSession (historySequence s1 + 1) (coreSequence s1) (CurrentVersion env))
              (world s1) = (Return (Some err, is1), w)"
    from runOnce_loop_session_error [OF u lt this]
    show "runOnce env s =
              Some (Return (), log_write (LogStackErrorf ''import session failed: %s'' err)
                                 (s1\<lparr>world := w\<rparr>))"
      by (rule runOnce_of_loop_Return)
  }
  assume ok: "session_Run env
                (NewSession (historySequence s1 + 1) (coreSequence s1) (CurrentVersion env))
                (world s1) = (Return (None, is1), w)"
  note l = runOnce_loop_session_ok [OF u lt ok]
  {
    assume "Ingested is1 = 0"
    then have "runOnce_loop env s = Some (Return (), s1\<lparr>world := w\<rparr>)" using l by simp
    then show "runOnce env s = Some (Return (), s1\<lparr>world := w\<rparr>)"
      by (rule runOnce_of_loop_Return)
  }
  {
    assume "Ingested is1 \<noteq> 0"
    then have "runOnce_loop env s = runOnce_loop env (s1\<lparr>world := w\<rparr>)" using l by simp
    then show "runOnce env s = runOnce env (s1\<lparr>world := w\<rparr>)"
      by (rule runOnce_of_loop_eq)
  }
next
  show "runOnce stub_env (stub_state 100 40 stub_world0) =
         Some (Return (),
           stub_state 100 100
             (stub_world0\<lparr>hist_seq := 100,
                ran := [\<lparr>fromSeq = 41, toSeq = 100, version = 8, ClearExisting = False,
                         Ingested = 0\<rparr>]\<rparr>))"
    by code_simp
next
  show "runOnce stub_env
         (stub_state 100 100
             (stub_world0\<lparr>hist_seq := 100,
                ran := [\<lparr>fromSeq = 41, toSeq = 100, version = 8, ClearExisting = False,
                         Ingested = 0\<rparr>]\<rparr>)) =
         Some (Return (),
           stub_state 100 100
             (stub_world0\<lparr>hist_seq := 100,
                ran := [\<lparr>fromSeq = 41, toSeq = 100, version = 8, ClearExisting = False,
                         Ingested = 0\<rparr>]\<rparr>))"
    by code_simp
qed

theorem runOnce_iteration_witness:
  "runOnce stub_env (stub_state 0 0 stub_world0) =
     runOnce stub_env
       (stub_state 100 40
          (stub_world0\<lparr>hist_seq := 100,
             ran := [\<lparr>fromSeq = 41, toSeq = 100, version = 8, ClearExisting = False,
                      Ingested = 0\<rparr>]\<rparr>))
   \<and> runOnce stub_env
       (stub_state 100 40
          (stub_world0\<lparr>hist_seq := 100,
             ran := [\<lparr>fromSeq = 41, toSeq = 100, version = 8, ClearExisting = False,
                      Ingested = 0\<rparr>]\<rparr>)) =
     Some (Return (),
       stub_state 100 100
          (stub_world0\<lparr>hist_seq := 100,
             ran := [\<lparr>fromSeq = 41, toSeq = 100, version = 8, ClearExisting = False,
                      Ingested = 0\<rparr>]\<rparr>))"
proof -
  let ?sess = "\<lparr>fromSeq = 41, toSeq = 100, version = 8, ClearExisting = False, Ingested = 0\<rparr>"
  let ?w = "stub_world0\<lparr>hist_seq := 100, ran := [?sess]\<rparr>"
  have u1: "updateLedgerState stub_env (stub_state 0 0 stub_world0) =
              (Return None, stub_state 100 40 stub_world0)"
    by (simp add: updateLedgerState_def stub_defs)
  have lt: "sint (historySequence (stub_state 100 40 stub_world0))
              < sint (coreSequence (stub_state 100 40 stub_world0))"
    by (simp add: stub_defs)
  have r: "session_Run stub_env
             (NewSession (historySequence (stub_state 100 40 stub_world0) + 1)
                (coreSequence (stub_state 100 40 stub_world0)) (CurrentVersion stub_env))
             (world (stub_state 100 40 stub_world0)) =
             (Return (None, ?sess\<lparr>Ingested := 60\<rparr>), ?w)"
    by (simp add: NewSession_def stub_defs)
  have nz: "Ingested (?sess\<lparr>Ingested := 60\<rparr>) \<noteq> 0" by simp
  note a = runOnce_iteration
    [where env = stub_env and s = "stub_state 0 0 stub_world0"
       and ?s1.0 = "stub_state 100 40 stub_world0" and ?is1.0 = "?sess\<lparr>Ingested := 60\<rparr>"
       and w = ?w, THEN conjunct1, rule_format, OF u1]
  have p1: "runOnce stub_env (stub_state 0 0 stub_world0) =
              runOnce stub_env ((stub_state 100 40 stub_world0)\<lparr>world := ?w\<rparr>)"
    using a [THEN conjunct2, rule_format, OF lt, THEN conjunct2, rule_format, OF r,
             THEN conjunct2, rule_format, OF nz] .
  have u2: "updateLedgerState stub_env (stub_state 100 40 ?w) =
              (Return None, stub_state 100 100 ?w)"
    by (simp add: updateLedgerState_def stub_defs)
  have le: "sint (coreSequence (stub_state 100 100 ?w)) \<le> sint (historySequence (stub_state 100 100 ?w))"
    by (simp add: stub_defs)
  note b = runOnce_iteration
    [where env = stub_env and s = "stub_state 100 40 ?w" and ?s1.0 = "stub_state 100 100 ?w",
     THEN conjunct1, rule_format, OF u2]
  have p2: "runOnce stub_env (stub_state 100 40 ?w) = Some (Return (), stub_state 100 100 ?w)"
    using b [THEN conjunct1, rule_format, OF le] .
  have sw: "(stub_state 100 40 stub_world0)\<lparr>world := ?w\<rparr> = stub_state 100 40 ?w"
    by (simp add: stub_state_def)
  show ?thesis using p1 p2 sw by simp
qed

text \<open>
  Claim C8. A panic of a latest-sequence query or of \<open>Session.Run\<close> is a panic of the
  body of \<open>runOnce\<close>. Whenever the body panics, \<open>runOnce\<close> returns normally: the
  deferred function has converted the recovered value into an error carrying the stack
  (\<open>errors.FromPanic\<close>, as the spec describes it), written it to the log and reported
  it to Sentry. \<open>runOnce\<close> never ends in a panic, so neither does \<open>run\<close>; after a
  tick whose iteration panicked, \<open>run\<close> goes on with the remaining ticks from the
  state the recovery left, and the next tick runs \<open>runOnce\<close> afresh.
\<close>

theorem runOnce_recovers_panic:
  "(updateLedgerState env s = (Panic rec frames, s1) \<longrightarrow>
      runOnce_loop env s = Some (Panic rec frames, s1))
   \<and> (updateLedgerState env s = (Return None, s2)
        \<and> sint (historySequence s2) < sint (coreSequence s2)
        \<and> session_Run env
             (NewSession (historySequence s2 + 1) (coreSequence s2) (CurrentVersion env))
             (world s2) = (Panic rec frames, w) \<longrightarrow>
      runOnce_loop env s = Some (Panic rec frames, s2\<lparr>world := w\<rparr>))
   \<and> (runOnce_loop env s = Some (Panic rec frames, s1) \<longrightarrow>
        runOnce env s =
          Some (Return (),
                ReportToSentry (StackError rec frames)
                  (log_write (LogStackErrorf ''import session panicked: %s''
                                (StackError rec frames)) s1)))
   \<and> (\<forall>r s'. runOnce env s = Some (r, s') \<longrightarrow> r = Return ())
   \<and> (runOnce_loop env (log_write (LogDebug ''ticking ingester'') s) =
          Some (Panic rec frames, s1) \<longrightarrow>
        run env (Suc ticks) s =
          run env ticks
            (ReportToSentry (StackError rec frames)
               (log_write (LogStackErrorf ''import session panicked: %s''
                             (StackError rec frames)) s1)))
   \<and> (\<forall>r s'. run env ticks s = Some (r, s') \<longrightarrow> r = Return ())"
proof (intro conjI impI allI)
  assume "updateLedgerState env s = (Panic rec frames, s1)"
  then show "runOnce_loop env s = Some (Panic rec frames, s1)"
    by (rule runOnce_loop_refresh_panic)
next
  assume h: "updateLedgerState env s = (Return None, s2)
        \<and> sint (historySequence s2) < sint (coreSequence s2)
        \<and> session_Run env
             (NewSession (historySequence s2 + 1) (coreSequence s2) (CurrentVersion env))
             (world s2) = (Panic rec frames, w)"
  show "runOnce_loop env s = Some (Panic rec frames, s2\<lparr>world := w\<rparr>)"
    using runOnce_loop_session_panic [of env s s2 rec frames w] h by blast
next
  assume "runOnce_loop env s = Some (Panic rec frames, s1)"
  then show "runOnce env s =
          Some (Return (),
                ReportToSentry (StackError rec frames)
                  (log_write (LogStackErrorf ''import session panicked: %s''
                                (StackError rec frames)) s1))"
    by (simp add: runOnce_def FromPanic_def Let_def)
next
  fix r s' assume "runOnce env s = Some (r, s')"
  then show "r = Return ()"
    by (auto simp: runOnce_def Let_def split: option.splits prod.splits outcome.splits)
next
  assume "runOnce_loop env (log_write (LogDebug ''ticking ingester'') s) =
          Some (Panic rec frames, s1)"
  then show "run env (Suc ticks) s =
          run env ticks
            (ReportToSentry (StackError rec frames)
               (log_write (LogStackErrorf ''import session panicked: %s''
                             (StackError rec frames)) s1))"
    by (simp add: runOnce_def FromPanic_def Let_def)
next
  fix r s' assume "run env ticks s = Some (r, s')"
  then show "r = Return ()"
  proof (induction ticks arbitrary: s)
    case 0
    then show ?case by simp
  next
    case (Suc ticks)
    obtain x where x: "runOnce env (log_write (LogDebug ''ticking ingester'') s) = x" by simp
    show ?case
    proof (cases x)
      case None
      then show ?thesis using Suc.prems x by simp
    next
      case (Some p)
      obtain r1 s1 where p: "p = (r1, s1)" by (cases p)
      have "r1 = Return ()"
        using x Some p
        by (auto simp: runOnce_def Let_def split: option.splits prod.splits outcome.splits)
      then have "run env ticks s1 = Some (r, s')" using Suc.prems x Some p by simp
      then show ?thesis by (rule Suc.IH)
    qed
  qed
qed

theorem runOnce_recovers_panic_witness:
  "run stub_env (Suc (Suc 0))
      (stub_state 0 0 (stub_world0\<lparr>run_script := [Panics ''nil map write'']\<rparr>)) =
     run stub_env (Suc 0)
       \<lparr>coreSequence = 100, historySequence = 40,
        world = stub_world0\<lparr>run_script := [],
                  ran := [\<lparr>fromSeq = 41, toSeq = 100, version = 8, ClearExisting = False,
                           Ingested = 0\<rparr>]\<rparr>,
        logged = [LogDebug ''ticking ingester'',
                  LogStackErrorf ''import session panicked: %s''
                    (StackError ''nil map write'' [''session.Run''])],
        reported = [StackError ''nil map write'' [''session.Run'']]\<rparr>
   \<and> run stub_env (Suc (Suc 0))
      (stub_state 0 0 (stub_world0\<lparr>run_script := [Panics ''nil map write'']\<rparr>)) =
     Some (Return (),
       \<lparr>coreSequence = 100, historySequence = 100,
        world = stub_world0\<lparr>hist_seq := 100, run_script := [],
                  ran := [\<lparr>fromSeq = 41, toSeq = 100, version = 8, ClearExisting = False,
                           Ingested = 0\<rparr>,
                          \<lparr>fromSeq = 41, toSeq = 100, version = 8, ClearExisting = False,
                           Ingested = 0\<rparr>]\<rparr>,
        logged = [LogDebug ''ticking ingester'',
                  LogStackErrorf ''import session panicked: %s''
                    (StackError ''nil map write'' [''session.Run'']),
                  LogDebug ''ticking ingester''],
        reported = [StackError ''nil map write'' [''session.Run'']]\<rparr>)"
proof -
  let ?sess = "\<lparr>fromSeq = 41, toSeq = 100, version = 8, ClearExisting = False, Ingested = 0\<rparr>"
  let ?wp = "stub_world0\<lparr>run_script := [Panics ''nil map write'']\<rparr>"
  let ?s = "stub_state 0 0 ?wp"
  let ?st = "log_write (LogDebug ''ticking ingester'') ?s"
  let ?s2 = "\<lparr>coreSequence = 100, historySequence = 40, world = ?wp,
              logged = [LogDebug ''ticking ingester''], reported = []\<rparr>"
  let ?w = "stub_world0\<lparr>run_script := [], ran := [?sess]\<rparr>"
  let ?srec = "\<lparr>coreSequence = 100, historySequence = 40, world = ?w,
        logged = [LogDebug ''ticking ingester'',
                  LogStackErrorf ''import session panicked: %s''
                    (StackError ''nil map write'' [''session.Run''])],
        reported = [StackError ''nil map write'' [''session.Run'']]\<rparr>"
  have h: "updateLedgerState stub_env ?st = (Return None, ?s2)
        \<and> sint (historySequence ?s2) < sint (coreSequence ?s2)
        \<and> session_Run stub_env
             (NewSession (historySequence ?s2 + 1) (coreSequence ?s2) (CurrentVersion stub_env))
             (world ?s2) = (Panic ''nil map write'' [''session.Run''], ?w)"
    by (simp add: updateLedgerState_def NewSession_def log_write_def stub_defs)
  note a = runOnce_recovers_panic
    [where env = stub_env and s = ?st and ?s2.0 = ?s2 and rec = "''nil map write''"
       and frames = "[''session.Run'']" and w = ?w]
  have l: "runOnce_loop stub_env ?st =
             Some (Panic ''nil map write'' [''session.Run''], ?s2\<lparr>world := ?w\<rparr>)"
    using a h by blast
  note b = runOnce_recovers_panic
    [where env = stub_env and s = ?s and ?s1.0 = "?s2\<lparr>world := ?w\<rparr>"
       and rec = "''nil map write''" and frames = "[''session.Run'']" and ticks = "Suc 0"]
  have r: "run stub_env (Suc (Suc 0)) ?s =
             run stub_env (Suc 0)
               (ReportToSentry (StackError ''nil map write'' [''session.Run''])
                  (log_write (LogStackErrorf ''import session panicked: %s''
                                (StackError ''nil map write'' [''session.Run'']))
                     (?s2\<lparr>world := ?w\<rparr>)))"
    using b l by blast
  have e: "ReportToSentry (StackError ''nil map write'' [''session.Run''])
                  (log_write (LogStackErrorf ''import session panicked: %s''
                                (StackError ''nil map write'' [''session.Run'']))
                     (?s2\<lparr>world := ?w\<rparr>)) = ?srec"
    by (simp add: ReportToSentry_def log_write_def)
  have n: "run stub_env (Suc 0) ?srec =
     Some (Return (),
       \<lparr>coreSequence = 100, historySequence = 100,
        world = stub_world0\<lparr>hist_seq := 100, run_script := [], ran := [?sess, ?sess]\<rparr>,
        logged = [LogDebug ''ticking ingester'',
                  LogStackErrorf ''import session panicked: %s''
                    (StackError ''nil map write'' [''session.Run'']),
                  LogDebug ''ticking ingester''],
        reported = [StackError ''nil map write'' [''session.Run'']]\<rparr>)"
    by code_simp
  show ?thesis using r e n by simp
qed

end
